theory Spec2Isabelle
  imports Main "HOL-Library.AList"
begin

section \<open>The user record (package models)\<close>

text \<open>
  \<^verbatim>\<open>models.User\<close> has five fields. The three strings are Go strings: byte sequences that
  need not be valid UTF-8. A \<^verbatim>\<open>time.Time\<close> is represented by the instant it denotes
  (nanoseconds since the epoch) and the offset of its zone from UTC (seconds east), which
  is what its RFC 3339 text is computed from; the monotonic clock reading and the name of
  the zone, which no encoding of the value carries, are left out. The store never
  inspects a timestamp, it only copies, stores and serialises it.
\<close>

record Time =
  instant :: int
  zone :: int

record User =
  ID :: string
  Name :: string
  Email :: string
  CreatedAt :: Time
  UpdatedAt :: Time

section \<open>Errors\<close>

text \<open>
  \<^verbatim>\<open>ErrUserNotFound\<close> and \<^verbatim>\<open>ErrUserExists\<close> are the two sentinel errors of package
  storage. Every other error the store returns is handed through from the operating
  system or from \<^verbatim>\<open>encoding/json\<close>: \<open>ErrNotExist\<close> is the error for which
  \<^verbatim>\<open>os.IsNotExist\<close> holds, \<open>ErrOS\<close> any other error of \<^verbatim>\<open>os.MkdirAll\<close>,
  \<^verbatim>\<open>os.ReadFile\<close> or \<^verbatim>\<open>os.WriteFile\<close>, and \<open>ErrJSON\<close> an error of
  \<^verbatim>\<open>json.Unmarshal\<close> or \<^verbatim>\<open>json.MarshalIndent\<close>.
\<close>

datatype error = ErrUserNotFound | ErrUserExists | ErrNotExist | ErrOS | ErrJSON

definition os_IsNotExist :: "error \<Rightarrow> bool" where
  "os_IsNotExist err = (err = ErrNotExist)"

text \<open>
  The spec's \<open>PersistenceError\<close> is no type of the code: it stands for every error of a
  disk read, write or parse, that is, every error other than the two sentinels.
\<close>

definition PersistenceError :: "error \<Rightarrow> bool" where
  "PersistenceError err = (err = ErrNotExist \<or> err = ErrOS \<or> err = ErrJSON)"

section \<open>The snapshot file and the file system\<close>

text \<open>
  The bytes of a file are represented by what \<^verbatim>\<open>encoding/json\<close> makes of them when it
  decodes them into a \<^verbatim>\<open>[]models.User\<close>: no bytes at all, bytes that decode to a
  sequence of users (in the order of the array), or bytes that do not decode. The file
  system maps a path to the data of the file there, \<open>None\<close> when no file exists.
\<close>

datatype file_data = NoBytes | UsersJSON "User list" | OtherBytes

type_synonym file_system = "string \<rightharpoonup> file_data"

definition json_Unmarshal :: "file_data \<Rightarrow> error + User list" where
  "json_Unmarshal data =
     (case data of
        UsersJSON us \<Rightarrow> Inr us
      | NoBytes \<Rightarrow> Inl ErrJSON
      | OtherBytes \<Rightarrow> Inl ErrJSON)"

text \<open>
  \<^verbatim>\<open>json.MarshalIndent\<close> does not write every record as it is. In a string it copies
  each well-formed UTF-8 sequence (escaped or not, it decodes to itself) and writes the
  replacement character U+FFFD for each byte that starts none. \<open>rune_len\<close> is the size
  that \<^verbatim>\<open>utf8.DecodeRuneInString\<close> reports for the sequence at the head of a string, with
  0 for the error of size 1: the ranges are those of the tables of package
  \<^verbatim>\<open>unicode/utf8\<close> (no overlong forms, no surrogates, nothing above U+10FFFF).
  \<open>json_string\<close> is the string that the written text decodes to.
\<close>

fun tail_ok :: "nat \<Rightarrow> nat \<Rightarrow> nat \<Rightarrow> char list \<Rightarrow> bool" where
  "tail_ok lo hi n [] = False"
| "tail_ok lo hi n (b # bs) =
     (lo \<le> of_char b \<and> of_char b \<le> hi \<and> n \<le> length bs \<and>
      list_all (\<lambda>c. 0x80 \<le> (of_char c :: nat) \<and> (of_char c :: nat) \<le> 0xBF) (take n bs))"

definition rune_len :: "char list \<Rightarrow> nat" where
  "rune_len s =
     (case s of
        [] \<Rightarrow> 0
      | b # bs \<Rightarrow>
          (let x = (of_char b :: nat) in
           if x < 0x80 then 1
           else if 0xC2 \<le> x \<and> x \<le> 0xDF then (if tail_ok 0x80 0xBF 0 bs then 2 else 0)
           else if x = 0xE0 then (if tail_ok 0xA0 0xBF 1 bs then 3 else 0)
           else if 0xE1 \<le> x \<and> x \<le> 0xEC then (if tail_ok 0x80 0xBF 1 bs then 3 else 0)
           else if x = 0xED then (if tail_ok 0x80 0x9F 1 bs then 3 else 0)
           else if 0xEE \<le> x \<and> x \<le> 0xEF then (if tail_ok 0x80 0xBF 1 bs then 3 else 0)
           else if x = 0xF0 then (if tail_ok 0x90 0xBF 2 bs then 4 else 0)
           else if 0xF1 \<le> x \<and> x \<le> 0xF3 then (if tail_ok 0x80 0xBF 2 bs then 4 else 0)
           else if x = 0xF4 then (if tail_ok 0x80 0x8F 2 bs then 4 else 0)
           else 0))"

fun json_string :: "char list \<Rightarrow> char list" where
  "json_string [] = []"
| "json_string (b # bs) =
     (let n = rune_len (b # bs)
      in if n = 0 then [CHR 0xEF, CHR 0xBF, CHR 0xBD] @ json_string bs
         else b # take (n - 1) bs @ json_string (drop (n - 1) bs))"

text \<open>
  A \<^verbatim>\<open>time.Time\<close> is written as RFC 3339 text: the local date and time, computed with
  the full offset of the zone, followed by the offset in hours and minutes only, the Go
  division \<^verbatim>\<open>offset / 60\<close> cutting the seconds off towards zero. \<open>json_Time\<close> is the time
  that this text parses to: the offset in whole minutes, and the instant moved by the
  seconds that were cut.
\<close>

definition json_Time :: "Time \<Rightarrow> Time" where
  "json_Time t =
     (let minutes = sgn (zone t) * (\<bar>zone t\<bar> div 60)
      in \<lparr>instant = instant t + (zone t - 60 * minutes) * 1000000000, zone = 60 * minutes\<rparr>)"

definition json_User :: "User \<Rightarrow> User" where
  "json_User u =
     \<lparr>ID = json_string (ID u), Name = json_string (Name u), Email = json_string (Email u),
      CreatedAt = json_Time (CreatedAt u), UpdatedAt = json_Time (UpdatedAt u)\<rparr>"

text \<open>
  The bytes that \<^verbatim>\<open>json.MarshalIndent\<close> returns for a sequence of users decode to the
  sequence of the users as written. (It returns an error instead for a time whose year
  is outside 0 to 9999 or whose zone offset is a day or more; whether the encoding fails
  is left to \<open>save_outcome\<close> below.)
\<close>

definition json_MarshalIndent :: "User list \<Rightarrow> file_data" where
  "json_MarshalIndent us = UsersJSON (map json_User us)"

text \<open>
  \<^verbatim>\<open>os.ReadFile\<close>: a missing file gives the not-exist error; a file that is there is
  read unless the operating system refuses (\<open>readable\<close> is false).
\<close>

definition os_ReadFile :: "bool \<Rightarrow> file_system \<Rightarrow> string \<Rightarrow> error + file_data" where
  "os_ReadFile readable fs path =
     (case fs path of
        None \<Rightarrow> Inl ErrNotExist
      | Some data \<Rightarrow> if readable then Inr data else Inl ErrOS)"

text \<open>
  What happens to one call of \<^verbatim>\<open>save\<close> is decided outside the program: the write goes
  through, the encoding fails (nothing is written), or \<^verbatim>\<open>os.WriteFile\<close> fails and
  leaves at the path whatever the failed write left there (the old file, a truncated
  file, or no file). \<^verbatim>\<open>save\<close> returns before it calls \<^verbatim>\<open>os.WriteFile\<close> when the encoding
  fails, so \<open>os_WriteFile\<close> only has to tell a failed write from one that goes through.
\<close>

datatype save_outcome = Written | MarshalFails | WriteFails "file_data option"

definition os_WriteFile ::
  "save_outcome \<Rightarrow> file_system \<Rightarrow> string \<Rightarrow> file_data \<Rightarrow> error option \<times> file_system" where
  "os_WriteFile out fs path data =
     (case out of
        WriteFails left \<Rightarrow> (Some ErrOS, fs(path := left))
      | _ \<Rightarrow> (None, fs(path \<mapsto> data)))"

section \<open>The store (package storage)\<close>

text \<open>
  \<^verbatim>\<open>JSONStore\<close> holds the path of the snapshot and the index, a Go map from id to user.
  The index is an association list with one entry per key: a lookup is \<open>map_of\<close>, an
  assignment \<^verbatim>\<open>m[k] = v\<close> is \<open>AList.update\<close>, \<^verbatim>\<open>delete(m, k)\<close> is \<open>AList.delete\<close>,
  and a \<^verbatim>\<open>range\<close> loop visits the entries of the list. Go leaves the order of a
  \<^verbatim>\<open>range\<close> over a map open; the list fixes one order, and every property below is
  stated on sets of records or on lookups, so none depends on it. The mutex is not
  modelled: every operation holds it from entry to return, so operations are atomic steps.
\<close>

record JSONStore =
  filePath :: string
  users :: "(string \<times> User) list"

text \<open>The loop of \<^verbatim>\<open>save\<close> and \<^verbatim>\<open>GetAll\<close> that appends every value of the map to a slice.\<close>

fun range_append :: "(string \<times> User) list \<Rightarrow> User list \<Rightarrow> User list" where
  "range_append [] acc = acc"
| "range_append ((uid, user) # rest) acc = range_append rest (acc @ [user])"

definition save :: "save_outcome \<Rightarrow> JSONStore \<Rightarrow> file_system \<Rightarrow> error option \<times> file_system" where
  "save out s fs =
     (let us = range_append (users s) []
      in if out = MarshalFails then (Some ErrJSON, fs)
         else os_WriteFile out fs (filePath s) (json_MarshalIndent us))"

text \<open>The loop of \<^verbatim>\<open>load\<close> that stores every decoded user under its id.\<close>

fun range_store :: "User list \<Rightarrow> (string \<times> User) list \<Rightarrow> (string \<times> User) list" where
  "range_store [] m = m"
| "range_store (user # rest) m = range_store rest (AList.update (ID user) user m)"

definition load :: "bool \<Rightarrow> JSONStore \<Rightarrow> file_system \<Rightarrow> error option \<times> JSONStore" where
  "load readable s fs =
     (case os_ReadFile readable fs (filePath s) of
        Inl err \<Rightarrow> (Some err, s)
      | Inr data \<Rightarrow>
          if data = NoBytes then (None, s)
          else (case json_Unmarshal data of
                  Inl err \<Rightarrow> (Some err, s)
                | Inr us \<Rightarrow> (None, s\<lparr>users := range_store us []\<rparr>)))"

text \<open>
  \<^verbatim>\<open>NewJSONStore\<close>: \<open>mkdir_ok\<close> says whether \<^verbatim>\<open>os.MkdirAll\<close> on the directory of the
  path succeeds. An error of \<^verbatim>\<open>load\<close> is fatal unless it is the not-exist error.
\<close>

definition NewJSONStore :: "bool \<Rightarrow> bool \<Rightarrow> file_system \<Rightarrow> string \<Rightarrow> error + JSONStore" where
  "NewJSONStore mkdir_ok readable fs path =
     (let store = \<lparr>filePath = path, users = []\<rparr>
      in if \<not> mkdir_ok then Inl ErrOS
         else (case load readable store fs of
                 (Some err, store') \<Rightarrow> if \<not> os_IsNotExist err then Inl err else Inr store'
               | (None, store') \<Rightarrow> Inr store'))"

definition GetAll :: "JSONStore \<Rightarrow> User list" where
  "GetAll s = range_append (users s) []"

definition GetByID :: "JSONStore \<Rightarrow> string \<Rightarrow> error + User" where
  "GetByID s uid =
     (case map_of (users s) uid of
        None \<Rightarrow> Inl ErrUserNotFound
      | Some user \<Rightarrow> Inr user)"

text \<open>The email scan of \<^verbatim>\<open>Create\<close>: true when the loop returns \<^verbatim>\<open>ErrUserExists\<close>.\<close>

fun Create_scan :: "(string \<times> User) list \<Rightarrow> User \<Rightarrow> bool" where
  "Create_scan [] user = False"
| "Create_scan ((uid, existingUser) # rest) user =
     (if Email existingUser = Email user then True else Create_scan rest user)"

text \<open>
  A mutating operation returns its error (\<open>None\<close> for \<^verbatim>\<open>nil\<close>) together with the store
  and the file system as it leaves them, also when it fails.
\<close>

definition Create ::
  "save_outcome \<Rightarrow> User \<Rightarrow> JSONStore \<Rightarrow> file_system \<Rightarrow> error option \<times> JSONStore \<times> file_system" where
  "Create out user s fs =
     (if Create_scan (users s) user then (Some ErrUserExists, s, fs)
      else (let s' = s\<lparr>users := AList.update (ID user) user (users s)\<rparr>
            in case save out s' fs of (err, fs') \<Rightarrow> (err, s', fs')))"

text \<open>The email scan of \<^verbatim>\<open>Update\<close>, which skips the entry stored under the user's own id.\<close>

fun Update_scan :: "(string \<times> User) list \<Rightarrow> User \<Rightarrow> bool" where
  "Update_scan [] user = False"
| "Update_scan ((uid, existingUser) # rest) user =
     (if Email existingUser = Email user \<and> uid \<noteq> ID user then True else Update_scan rest user)"

definition Update ::
  "save_outcome \<Rightarrow> User \<Rightarrow> JSONStore \<Rightarrow> file_system \<Rightarrow> error option \<times> JSONStore \<times> file_system" where
  "Update out user s fs =
     (if map_of (users s) (ID user) = None then (Some ErrUserNotFound, s, fs)
      else if Update_scan (users s) user then (Some ErrUserExists, s, fs)
      else (let s' = s\<lparr>users := AList.update (ID user) user (users s)\<rparr>
            in case save out s' fs of (err, fs') \<Rightarrow> (err, s', fs')))"

definition Delete ::
  "save_outcome \<Rightarrow> string \<Rightarrow> JSONStore \<Rightarrow> file_system \<Rightarrow> error option \<times> JSONStore \<times> file_system" where
  "Delete out uid s fs =
     (if map_of (users s) uid = None then (Some ErrUserNotFound, s, fs)
      else (let s' = s\<lparr>users := AList.delete uid (users s)\<rparr>
            in case save out s' fs of (err, fs') \<Rightarrow> (err, s', fs')))"

section \<open>Sequences of operations\<close>

datatype op = OpCreate User | OpUpdate User | OpDelete string

fun apply_op ::
  "save_outcome \<times> op \<Rightarrow> JSONStore \<Rightarrow> file_system \<Rightarrow> error option \<times> JSONStore \<times> file_system" where
  "apply_op (out, OpCreate user) s fs = Create out user s fs"
| "apply_op (out, OpUpdate user) s fs = Update out user s fs"
| "apply_op (out, OpDelete uid) s fs = Delete out uid s fs"

text \<open>
  \<open>states\<close> lists every state a caller passes through who issues the operations one after
  the other and carries on after a failed one; \<open>run\<close> stops at the first operation that
  returns an error.
\<close>

fun states ::
  "(save_outcome \<times> op) list \<Rightarrow> JSONStore \<Rightarrow> file_system \<Rightarrow> (JSONStore \<times> file_system) list" where
  "states [] s fs = [(s, fs)]"
| "states (x # xs) s fs =
     (s, fs) # (case apply_op x s fs of (err, s', fs') \<Rightarrow> states xs s' fs')"

fun run ::
  "(save_outcome \<times> op) list \<Rightarrow> JSONStore \<Rightarrow> file_system \<Rightarrow> error option \<times> JSONStore \<times> file_system" where
  "run [] s fs = (None, s, fs)"
| "run (x # xs) s fs =
     (case apply_op x s fs of
        (None, s', fs') \<Rightarrow> run xs s' fs'
      | (Some err, s', fs') \<Rightarrow> (Some err, s', fs'))"

section \<open>Invariants and observations\<close>

text \<open>
  A Go map holds one entry per key (\<open>is_map\<close>). Every assignment to the index in the
  code stores a user under its own id (\<open>keyed_by_id\<close>). \<open>store_ok\<close> holds of every store
  that \<^verbatim>\<open>NewJSONStore\<close> returns and is kept by every operation (lemmas
  \<open>NewJSONStore_store_ok\<close> and \<open>apply_op_store_ok\<close> below).
\<close>

definition is_map :: "(string \<times> User) list \<Rightarrow> bool" where
  "is_map m = distinct (map fst m)"

definition keyed_by_id :: "(string \<times> User) list \<Rightarrow> bool" where
  "keyed_by_id m = list_all (\<lambda>(k, user). ID user = k) m"

definition store_ok :: "JSONStore \<Rightarrow> bool" where
  "store_ok s = (is_map (users s) \<and> keyed_by_id (users s))"

text \<open>No two live records share an email.\<close>

definition unique_emails :: "JSONStore \<Rightarrow> bool" where
  "unique_emails s = distinct (map (\<lambda>(k, user). Email user) (users s))"

text \<open>The set of records in the snapshot file at a path; a file that is missing or holds
  no sequence of records holds none.\<close>

definition snapshot_records :: "file_system \<Rightarrow> string \<Rightarrow> User set" where
  "snapshot_records fs path =
     (case fs path of
        Some (UsersJSON us) \<Rightarrow> set us
      | _ \<Rightarrow> {})"

section \<open>Concrete stores and files\<close>

definition utc :: "int \<Rightarrow> Time" where
  "utc n = \<lparr>instant = n, zone = 0\<rparr>"

definition alice :: User where
  "alice = \<lparr>ID = ''1'', Name = ''Alice'', Email = ''a@x.com'',
            CreatedAt = utc 100, UpdatedAt = utc 100\<rparr>"

definition bob :: User where
  "bob = \<lparr>ID = ''2'', Name = ''Bob'', Email = ''b@x.com'',
          CreatedAt = utc 200, UpdatedAt = utc 200\<rparr>"

text \<open>A record whose name is the single byte 0xFF, which is not valid UTF-8, and the
  record that its JSON text decodes to.\<close>

definition carol :: User where
  "carol = \<lparr>ID = ''3'', Name = [CHR 0xFF], Email = ''c@x.com'',
            CreatedAt = utc 300, UpdatedAt = utc 300\<rparr>"

definition carol_written :: User where
  "carol_written = \<lparr>ID = ''3'', Name = [CHR 0xEF, CHR 0xBF, CHR 0xBD], Email = ''c@x.com'',
            CreatedAt = utc 300, UpdatedAt = utc 300\<rparr>"

definition store0 :: JSONStore where
  "store0 = \<lparr>filePath = ''data/users.json'', users = []\<rparr>"

definition store1 :: JSONStore where
  "store1 = \<lparr>filePath = ''data/users.json'', users = [(''1'', alice)]\<rparr>"

definition disk0 :: file_system where
  "disk0 = Map.empty"

definition disk1 :: file_system where
  "disk1 = [''data/users.json'' \<mapsto> UsersJSON [alice]]"

definition store2 :: JSONStore where
  "store2 = \<lparr>filePath = ''data/users.json'', users = [(''1'', alice), (''2'', bob)]\<rparr>"

text \<open>A snapshot in which two records with different ids carry the same email.\<close>

definition disk_same_email :: file_system where
  "disk_same_email = [''data/users.json'' \<mapsto> UsersJSON [alice, bob\<lparr>Email := ''a@x.com''\<rparr>]]"

text \<open>A snapshot in which two records carry the same id.\<close>

definition disk_same_id :: file_system where
  "disk_same_id = [''data/users.json'' \<mapsto> UsersJSON [alice, alice\<lparr>Name := ''Alicia''\<rparr>]]"

section \<open>Basic facts about the loops and the index\<close>

lemma range_append_eq: "range_append m acc = acc @ map snd m"
  by (induction m acc rule: range_append.induct) auto

lemma GetAll_eq: "GetAll s = map snd (users s)"
  by (simp add: GetAll_def range_append_eq)

lemma Create_scan_iff: "Create_scan m user \<longleftrightarrow> (\<exists>x \<in> set (map snd m). Email x = Email user)"
  by (induction m user rule: Create_scan.induct) auto

lemma Update_scan_iff:
  "Update_scan m user \<longleftrightarrow> (\<exists>(k, x) \<in> set m. Email x = Email user \<and> k \<noteq> ID user)"
  by (induction m user rule: Update_scan.induct) auto

lemma GetByID_update: "GetByID (s\<lparr>users := AList.update k v (users s)\<rparr>) k = Inr v"
  by (simp add: GetByID_def update_conv')

lemma GetByID_delete: "GetByID (s\<lparr>users := AList.delete k (users s)\<rparr>) k = Inl ErrUserNotFound"
  by (simp add: GetByID_def delete_conv')

lemma save_cases:
  "save out s fs = (err, fs') \<Longrightarrow>
     (out = Written \<and> err = None \<and> fs' = fs(filePath s \<mapsto> UsersJSON (map json_User (GetAll s)))) \<or>
     (out = MarshalFails \<and> err = Some ErrJSON \<and> fs' = fs) \<or>
     (\<exists>left. out = WriteFails left \<and> err = Some ErrOS \<and> fs' = fs(filePath s := left))"
  by (cases out) (auto simp: save_def os_WriteFile_def json_MarshalIndent_def GetAll_def)

lemma save_Written: "save Written s fs = (None, fs(filePath s \<mapsto> UsersJSON (map json_User (GetAll s))))"
  by (simp add: save_def os_WriteFile_def json_MarshalIndent_def GetAll_def)

lemma save_fails: "out \<noteq> Written \<Longrightarrow> \<exists>e. fst (save out s fs) = Some e \<and> PersistenceError e"
  by (cases "save out s fs") (auto dest!: save_cases simp: PersistenceError_def)

lemma keyed_update: "keyed_by_id m \<Longrightarrow> ID v = k \<Longrightarrow> keyed_by_id (AList.update k v m)"
  by (induction m) (auto simp: keyed_by_id_def)

lemma keyed_delete: "keyed_by_id m \<Longrightarrow> keyed_by_id (AList.delete k m)"
  by (simp add: keyed_by_id_def AList.delete_eq list_all_iff)

lemma store_ok_update: "store_ok s \<Longrightarrow> store_ok (s\<lparr>users := AList.update (ID user) user (users s)\<rparr>)"
  by (simp add: store_ok_def is_map_def distinct_update keyed_update)

lemma store_ok_delete: "store_ok s \<Longrightarrow> store_ok (s\<lparr>users := AList.delete k (users s)\<rparr>)"
  by (simp add: store_ok_def is_map_def distinct_delete keyed_delete)

lemma Create_store_ok: "store_ok s \<Longrightarrow> Create out user s fs = (err, s', fs') \<Longrightarrow> store_ok s'"
  by (auto simp: Create_def Let_def store_ok_update split: if_splits prod.splits)

lemma Update_store_ok: "store_ok s \<Longrightarrow> Update out user s fs = (err, s', fs') \<Longrightarrow> store_ok s'"
  by (auto simp: Update_def Let_def store_ok_update split: if_splits prod.splits)

lemma Delete_store_ok: "store_ok s \<Longrightarrow> Delete out uid s fs = (err, s', fs') \<Longrightarrow> store_ok s'"
  by (auto simp: Delete_def Let_def store_ok_delete split: if_splits prod.splits)

lemma apply_op_store_ok: "store_ok s \<Longrightarrow> apply_op x s fs = (err, s', fs') \<Longrightarrow> store_ok s'"
proof -
  assume ok: "store_ok s" and ap: "apply_op x s fs = (err, s', fs')"
  obtain out o' where x: "x = (out, o')" by (cases x)
  show "store_ok s'"
    using ok ap x by (cases o') (auto dest: Create_store_ok Update_store_ok Delete_store_ok)
qed

lemma range_store_ok:
  "is_map m \<Longrightarrow> keyed_by_id m \<Longrightarrow> is_map (range_store us m) \<and> keyed_by_id (range_store us m)"
  by (induction us m rule: range_store.induct) (auto simp: is_map_def distinct_update keyed_update)

lemma load_store_ok: "store_ok s \<Longrightarrow> load readable s fs = (err, s') \<Longrightarrow> store_ok s'"
  using range_store_ok[of "[]"]
  by (auto simp: load_def store_ok_def is_map_def keyed_by_id_def split: sum.splits if_splits)

lemma NewJSONStore_store_ok: "NewJSONStore mkdir_ok readable fs path = Inr s \<Longrightarrow> store_ok s"
proof -
  assume a: "NewJSONStore mkdir_ok readable fs path = Inr s"
  have ok0: "store_ok \<lparr>filePath = path, users = []\<rparr>"
    by (simp add: store_ok_def is_map_def keyed_by_id_def)
  obtain err s' where l: "load readable \<lparr>filePath = path, users = []\<rparr> fs = (err, s')"
    by (cases "load readable \<lparr>filePath = path, users = []\<rparr> fs")
  from a l have "s = s'"
    by (auto simp: NewJSONStore_def Let_def split: if_splits option.splits)
  with load_store_ok[OF ok0 l] show "store_ok s" by simp
qed

lemma keyed_ids: "keyed_by_id m \<Longrightarrow> ID ` set (map snd m) = set (map fst m)"
  by (induction m) (auto simp: keyed_by_id_def)

lemma GetByID_NotFound_iff:
  "GetByID s uid = Inl ErrUserNotFound \<longleftrightarrow> uid \<notin> set (map fst (users s))"
proof -
  have "map_of (users s) uid = None \<longleftrightarrow> uid \<notin> fst ` set (users s)"
    by (rule map_of_eq_None_iff)
  then show ?thesis
    by (cases "map_of (users s) uid") (simp_all add: GetByID_def)
qed

lemma set_update_is_map:
  "is_map m \<Longrightarrow> set (AList.update k v m) = insert (k, v) {p \<in> set m. fst p \<noteq> k}"
  by (induction m) (auto simp: is_map_def rev_image_eqI)

lemma GetAll_update:
  assumes "store_ok s" "ID v = k"
  shows "set (GetAll (s\<lparr>users := AList.update k v (users s)\<rparr>)) = insert v {x \<in> set (GetAll s). ID x \<noteq> k}"
proof -
  from assms have m: "is_map (users s)" and kd: "\<forall>(j, x) \<in> set (users s). ID x = j"
    by (auto simp: store_ok_def keyed_by_id_def list_all_iff)
  have "snd ` {p \<in> set (users s). fst p \<noteq> k} = {x \<in> snd ` set (users s). ID x \<noteq> k}"
    using kd by force
  then show ?thesis
    by (simp add: GetAll_eq set_update_is_map[OF m])
qed

lemma Create_persist_fails:
  assumes "Create out user s fs = (Some e, s', fs')" "PersistenceError e"
  shows "s' = s\<lparr>users := AList.update (ID user) user (users s)\<rparr> \<and> out \<noteq> Written"
  using assms
  by (auto simp: Create_def Let_def PersistenceError_def save_Written split: if_splits prod.splits)

lemma Update_persist_fails:
  assumes "Update out user s fs = (Some e, s', fs')" "PersistenceError e"
  shows "s' = s\<lparr>users := AList.update (ID user) user (users s)\<rparr> \<and> out \<noteq> Written"
  using assms
  by (auto simp: Update_def Let_def PersistenceError_def save_Written split: if_splits prod.splits)

lemma Delete_persist_fails:
  assumes "Delete out uid s fs = (Some e, s', fs')" "PersistenceError e"
  shows "s' = s\<lparr>users := AList.delete uid (users s)\<rparr> \<and> out \<noteq> Written"
  using assms
  by (auto simp: Delete_def Let_def PersistenceError_def save_Written split: if_splits prod.splits)

lemma set_update_subset: "set (AList.update k v m) \<subseteq> insert (k, v) (set m)"
  by (induction m) auto

lemma emails_update:
  "distinct (map fst m) \<Longrightarrow> distinct (map (\<lambda>(k, user). Email user) m) \<Longrightarrow>
   \<forall>(k', x) \<in> set m. k' \<noteq> k \<longrightarrow> Email x \<noteq> Email v \<Longrightarrow>
   distinct (map (\<lambda>(k, user). Email user) (AList.update k v m))"
proof (induction m)
  case Nil
  then show ?case by simp
next
  case (Cons p m)
  obtain k' x where p: "p = (k', x)" by (cases p)
  show ?case
  proof (cases "k' = k")
    case True
    with Cons.prems p show ?thesis by force
  next
    case False
    have "distinct (map (\<lambda>(k, user). Email user) (AList.update k v m))"
      using Cons by auto
    moreover have "Email x \<noteq> Email y" if "(j, y) \<in> set (AList.update k v m)" for j y
      using that set_update_subset[of k v m] Cons.prems p False by force
    ultimately show ?thesis using p False by force
  qed
qed

lemma emails_delete:
  "distinct (map (\<lambda>(k, user). Email user) m) \<Longrightarrow>
   distinct (map (\<lambda>(k, user). Email user) (AList.delete k m))"
  by (simp add: AList.delete_eq distinct_map_filter)

lemma Create_unique:
  assumes "is_map (users s)" "unique_emails s" "Create out user s fs = (err, s', fs')"
  shows "is_map (users s') \<and> unique_emails s'"
proof (cases "Create_scan (users s) user")
  case True
  with assms show ?thesis by (simp add: Create_def)
next
  case False
  then have "\<forall>(k', x) \<in> set (users s). k' \<noteq> ID user \<longrightarrow> Email x \<noteq> Email user"
    by (force simp: Create_scan_iff)
  with assms(1,2) have "distinct (map (\<lambda>(k, user). Email user) (AList.update (ID user) user (users s)))"
    by (intro emails_update) (simp_all add: is_map_def unique_emails_def)
  moreover from False assms(3) have "s' = s\<lparr>users := AList.update (ID user) user (users s)\<rparr>"
    by (auto simp: Create_def Let_def split: prod.splits)
  ultimately show ?thesis using assms(1)
    by (simp add: unique_emails_def is_map_def distinct_update)
qed

lemma Update_unique:
  assumes "is_map (users s)" "unique_emails s" "Update out user s fs = (err, s', fs')"
  shows "is_map (users s') \<and> unique_emails s'"
proof (cases "map_of (users s) (ID user) = None \<or> Update_scan (users s) user")
  case True
  with assms show ?thesis by (auto simp: Update_def split: if_splits)
next
  case False
  then have "\<forall>(k', x) \<in> set (users s). k' \<noteq> ID user \<longrightarrow> Email x \<noteq> Email user"
    by (force simp: Update_scan_iff)
  with assms(1,2) have "distinct (map (\<lambda>(k, user). Email user) (AList.update (ID user) user (users s)))"
    by (intro emails_update) (simp_all add: is_map_def unique_emails_def)
  moreover from False assms(3) have "s' = s\<lparr>users := AList.update (ID user) user (users s)\<rparr>"
    by (auto simp: Update_def Let_def split: prod.splits)
  ultimately show ?thesis using assms(1)
    by (simp add: unique_emails_def is_map_def distinct_update)
qed

lemma Delete_unique:
  assumes "is_map (users s)" "unique_emails s" "Delete out uid s fs = (err, s', fs')"
  shows "is_map (users s') \<and> unique_emails s'"
  using assms
  by (auto simp: Delete_def Let_def unique_emails_def is_map_def distinct_delete emails_delete
      split: if_splits prod.splits)

lemma apply_op_unique:
  assumes "is_map (users s)" "unique_emails s" "apply_op x s fs = (err, s', fs')"
  shows "is_map (users s') \<and> unique_emails s'"
proof -
  obtain out o' where x: "x = (out, o')" by (cases x)
  show ?thesis
    using assms x by (cases o') (auto dest: Create_unique Update_unique Delete_unique)
qed

lemma Update_scan_ids:
  assumes "store_ok s"
  shows "Update_scan (users s) user \<longleftrightarrow> (\<exists>x \<in> set (GetAll s). ID x \<noteq> ID user \<and> Email x = Email user)"
proof -
  from assms have kd: "\<forall>(j, x) \<in> set (users s). ID x = j"
    by (auto simp: store_ok_def keyed_by_id_def list_all_iff)
  show ?thesis
  proof
    assume "Update_scan (users s) user"
    then obtain k x where "(k, x) \<in> set (users s)" "Email x = Email user" "k \<noteq> ID user"
      unfolding Update_scan_iff by blast
    moreover from this kd have "ID x = k" by blast
    ultimately show "\<exists>x \<in> set (GetAll s). ID x \<noteq> ID user \<and> Email x = Email user"
      unfolding GetAll_eq by force
  next
    assume "\<exists>x \<in> set (GetAll s). ID x \<noteq> ID user \<and> Email x = Email user"
    then obtain k x where "(k, x) \<in> set (users s)" "Email x = Email user" "ID x \<noteq> ID user"
      unfolding GetAll_eq by auto
    moreover from this kd have "ID x = k" by blast
    ultimately show "Update_scan (users s) user"
      unfolding Update_scan_iff by blast
  qed
qed

lemma present_iff:
  assumes "store_ok s"
  shows "map_of (users s) uid = None \<longleftrightarrow> \<not> (\<exists>y \<in> set (GetAll s). ID y = uid)"
proof -
  have "ID ` set (GetAll s) = fst ` set (users s)"
    using assms keyed_ids[of "users s"] by (simp add: store_ok_def GetAll_eq)
  moreover have "map_of (users s) uid = None \<longleftrightarrow> uid \<notin> fst ` set (users s)"
    by (rule map_of_eq_None_iff)
  ultimately have "map_of (users s) uid = None \<longleftrightarrow> uid \<notin> ID ` set (GetAll s)"
    by simp
  then show ?thesis by (simp add: image_iff) blast
qed

lemma Update_result:
  "fst (Update out user s fs) =
     (if map_of (users s) (ID user) = None then Some ErrUserNotFound
      else if Update_scan (users s) user then Some ErrUserExists
      else fst (save out (s\<lparr>users := AList.update (ID user) user (users s)\<rparr>) fs))"
  by (cases "save out (s\<lparr>users := AList.update (ID user) user (users s)\<rparr>) fs")
     (simp add: Update_def Let_def)

lemma save_not_sentinel:
  "fst (save out s fs) \<noteq> Some ErrUserExists \<and> fst (save out s fs) \<noteq> Some ErrUserNotFound"
  by (cases "save out s fs") (auto dest!: save_cases)

lemma Update_success:
  assumes "Update out user s fs = (None, s', fs')"
  shows "s' = s\<lparr>users := AList.update (ID user) user (users s)\<rparr> \<and> map_of (users s) (ID user) \<noteq> None"
  using assms by (auto simp: Update_def Let_def split: if_splits prod.splits)

lemma run_updates_last:
  "GetByID s uid = Inr x \<Longrightarrow>
   \<forall>(out, r) \<in> set rs. ID r = uid \<and> CreatedAt r = CreatedAt x \<Longrightarrow>
   run (map (\<lambda>(out, r). (out, OpUpdate r)) rs) s fs = (None, s', fs') \<Longrightarrow>
   \<exists>y. GetByID s' uid = Inr y \<and> CreatedAt y = CreatedAt x \<and> (rs \<noteq> [] \<longrightarrow> y = snd (last rs))"
proof (induction rs arbitrary: s fs x)
  case Nil
  then show ?case by simp
next
  case (Cons p rs)
  obtain out r where p: "p = (out, r)" by (cases p)
  obtain err s1 fs1 where u: "Update out r s fs = (err, s1, fs1)"
    by (cases "Update out r s fs")
  from Cons.prems(3) p u have err: "err = None"
    by (cases err) simp_all
  from Cons.prems(2) p have r: "ID r = uid" "CreatedAt r = CreatedAt x" by simp_all
  from Update_success u err have s1: "s1 = s\<lparr>users := AList.update (ID r) r (users s)\<rparr>"
    by blast
  have g1: "GetByID s1 uid = Inr r"
    using r by (simp add: s1 GetByID_update)
  have all: "\<forall>(out, r') \<in> set rs. ID r' = uid \<and> CreatedAt r' = CreatedAt r"
    using Cons.prems(2) r by auto
  have rn: "run (map (\<lambda>(out, r). (out, OpUpdate r)) rs) s1 fs1 = (None, s', fs')"
    using Cons.prems(3) p u err by simp
  from Cons.IH[OF g1 all rn] obtain y where
    y: "GetByID s' uid = Inr y" "CreatedAt y = CreatedAt r" "rs \<noteq> [] \<longrightarrow> y = snd (last rs)"
    by blast
  show ?case
  proof (cases "rs = []")
    case True
    with rn g1 r p show ?thesis by simp
  next
    case False
    with y r p show ?thesis by simp
  qed
qed

lemma set_update_fresh:
  "k \<notin> fst ` set m \<Longrightarrow> set (AList.update k v m) = insert (k, v) (set m)"
  by (induction m) auto

lemma range_store_set:
  "distinct (map ID us) \<Longrightarrow> ID ` set us \<inter> fst ` set m = {} \<Longrightarrow>
   set (range_store us m) = set m \<union> (\<lambda>user. (ID user, user)) ` set us"
proof (induction us arbitrary: m)
  case Nil
  then show ?case by simp
next
  case (Cons u us)
  from Cons.prems have fresh: "ID u \<notin> fst ` set m" by auto
  have upd: "set (AList.update (ID u) u m) = insert (ID u, u) (set m)"
    by (rule set_update_fresh[OF fresh])
  have "ID ` set us \<inter> fst ` set (AList.update (ID u) u m) = {}"
    using Cons.prems by (auto simp: upd)
  with Cons.prems have "set (range_store us (AList.update (ID u) u m)) =
      set (AList.update (ID u) u m) \<union> (\<lambda>user. (ID user, user)) ` set us"
    by (intro Cons.IH) simp_all
  then show ?case by (simp add: upd)
qed

lemma GetAll_range_store:
  "distinct (map ID us) \<Longrightarrow> set (GetAll \<lparr>filePath = path, users = range_store us []\<rparr>) = set us"
  by (simp add: GetAll_eq range_store_set image_image)

lemma NewJSONStore_cases:
  "NewJSONStore True True fs path =
     (case fs path of
        None \<Rightarrow> Inr \<lparr>filePath = path, users = []\<rparr>
      | Some NoBytes \<Rightarrow> Inr \<lparr>filePath = path, users = []\<rparr>
      | Some (UsersJSON us) \<Rightarrow> Inr \<lparr>filePath = path, users = range_store us []\<rparr>
      | Some OtherBytes \<Rightarrow> Inl ErrJSON)"
  by (simp add: NewJSONStore_def load_def os_ReadFile_def json_Unmarshal_def os_IsNotExist_def
      split: option.splits file_data.splits)

lemma NewJSONStore_Inr:
  assumes "NewJSONStore mkdir_ok readable fs path = Inr s"
  shows "NewJSONStore True True fs path = Inr s"
proof -
  from assms have mk: mkdir_ok
    by (auto simp: NewJSONStore_def split: if_splits)
  show ?thesis
  proof (cases "fs path")
    case None
    with assms mk have "s = \<lparr>filePath = path, users = []\<rparr>"
      by (auto simp: NewJSONStore_def load_def os_ReadFile_def os_IsNotExist_def)
    with None show ?thesis by (simp add: NewJSONStore_cases)
  next
    case (Some d)
    with assms mk have readable
      by (auto simp: NewJSONStore_def load_def os_ReadFile_def os_IsNotExist_def split: if_splits)
    with assms mk show ?thesis by simp
  qed
qed

lemma NewJSONStore_Inl:
  "NewJSONStore mkdir_ok readable fs path = Inl e \<Longrightarrow> PersistenceError e"
  by (auto simp: NewJSONStore_def load_def os_ReadFile_def json_Unmarshal_def os_IsNotExist_def
      PersistenceError_def split: if_splits option.splits file_data.splits sum.splits)

lemma Create_success:
  assumes "Create out user s fs = (None, s', fs')"
  shows "filePath s' = filePath s \<and> fs' = fs(filePath s \<mapsto> UsersJSON (map json_User (GetAll s')))"
proof -
  let ?t = "s\<lparr>users := AList.update (ID user) user (users s)\<rparr>"
  from assms have "s' = ?t" "save out ?t fs = (None, fs')"
    by (auto simp: Create_def Let_def split: if_splits prod.splits)
  with save_cases[of out ?t fs None fs'] show ?thesis by auto
qed

lemma Update_success_file:
  assumes "Update out user s fs = (None, s', fs')"
  shows "filePath s' = filePath s \<and> fs' = fs(filePath s \<mapsto> UsersJSON (map json_User (GetAll s')))"
proof -
  let ?t = "s\<lparr>users := AList.update (ID user) user (users s)\<rparr>"
  from assms have "s' = ?t" "save out ?t fs = (None, fs')"
    by (auto simp: Update_def Let_def split: if_splits prod.splits)
  with save_cases[of out ?t fs None fs'] show ?thesis by auto
qed

lemma Delete_success:
  assumes "Delete out uid s fs = (None, s', fs')"
  shows "filePath s' = filePath s \<and> fs' = fs(filePath s \<mapsto> UsersJSON (map json_User (GetAll s')))"
proof -
  let ?t = "s\<lparr>users := AList.delete uid (users s)\<rparr>"
  from assms have "s' = ?t" "save out ?t fs = (None, fs')"
    by (auto simp: Delete_def Let_def split: if_splits prod.splits)
  with save_cases[of out ?t fs None fs'] show ?thesis by auto
qed

lemma apply_op_success:
  assumes "apply_op x s fs = (None, s', fs')"
  shows "filePath s' = filePath s \<and> fs' = fs(filePath s \<mapsto> UsersJSON (map json_User (GetAll s')))"
proof -
  obtain out o' where x: "x = (out, o')" by (cases x)
  show ?thesis
    using assms x by (cases o') (auto dest: Create_success Update_success_file Delete_success)
qed

lemma store_ok_distinct_ids: "store_ok s \<Longrightarrow> distinct (map ID (GetAll s))"
proof -
  assume ok: "store_ok s"
  have eq: "map (ID \<circ> snd) (users s) = map fst (users s)"
    using ok by (auto simp: store_ok_def keyed_by_id_def list_all_iff)
  from ok have d: "distinct (map fst (users s))"
    by (simp add: store_ok_def is_map_def)
  have "distinct (map (ID \<circ> snd) (users s))"
    unfolding eq by (rule d)
  then show ?thesis by (simp add: GetAll_eq)
qed

lemma json_User_fixed: "\<forall>u \<in> set us. json_User u = u \<Longrightarrow> map json_User us = us"
  by (induction us) simp_all

lemma whole_minutes: "60 * (sgn z * (\<bar>z\<bar> div 60)) = z \<longleftrightarrow> z mod 60 = 0" for z :: int
proof -
  have pos: "60 * (y div 60) = y \<longleftrightarrow> y mod 60 = 0" for y :: int
  proof -
    have "60 * (y div 60) = y - y mod 60" by (simp add: minus_mod_eq_mult_div)
    then show ?thesis by simp
  qed
  show ?thesis
  proof (cases "z < 0")
    case True
    then have m: "sgn z * (\<bar>z\<bar> div 60) = - ((- z) div 60)" by simp
    have "60 * (- ((- z) div 60)) = z \<longleftrightarrow> 60 * ((- z) div 60) = - z" by auto
    also have "\<dots> \<longleftrightarrow> (- z) mod 60 = 0" by (rule pos)
    also have "\<dots> \<longleftrightarrow> 60 dvd (- z)" by (simp add: dvd_eq_mod_eq_0)
    also have "\<dots> \<longleftrightarrow> 60 dvd z" by (rule dvd_minus_iff)
    also have "\<dots> \<longleftrightarrow> z mod 60 = 0" by (simp add: dvd_eq_mod_eq_0)
    finally show ?thesis unfolding m .
  next
    case False
    then have m: "sgn z * (\<bar>z\<bar> div 60) = z div 60" by (cases "z = 0") simp_all
    show ?thesis unfolding m by (rule pos)
  qed
qed

lemma json_Time_fixed: "json_Time t = t \<longleftrightarrow> zone t mod 60 = 0"
proof
  assume "json_Time t = t"
  then have "zone (json_Time t) = zone t" by simp
  then have "60 * (sgn (zone t) * (\<bar>zone t\<bar> div 60)) = zone t"
    by (simp add: json_Time_def Let_def)
  then show "zone t mod 60 = 0" by (simp only: whole_minutes)
next
  assume "zone t mod 60 = 0"
  then have "60 * (sgn (zone t) * (\<bar>zone t\<bar> div 60)) = zone t"
    by (simp only: whole_minutes)
  then show "json_Time t = t" by (simp add: json_Time_def Let_def)
qed

lemma json_string_ascii:
  "list_all (\<lambda>c. (of_char c :: nat) < 0x80) str \<Longrightarrow> json_string str = str"
  by (induction str) (auto simp: rune_len_def)

lemma save_fails_error:
  "out \<noteq> Written \<Longrightarrow> \<exists>e fs'. save out s fs = (Some e, fs') \<and> PersistenceError e"
  by (cases out) (auto simp: save_def os_WriteFile_def PersistenceError_def)

lemma run_filePath: "run ops s fs = (err, s', fs') \<Longrightarrow> filePath s' = filePath s"
proof (induction ops arbitrary: s fs)
  case Nil
  then show ?case by simp
next
  case (Cons x ops)
  obtain e s1 fs1 where ap: "apply_op x s fs = (e, s1, fs1)" by (cases "apply_op x s fs")
  have fp1: "filePath s1 = filePath s"
  proof -
    obtain out o' where x: "x = (out, o')" by (cases x)
    show ?thesis using ap x
      by (cases o')
        (auto simp: Create_def Update_def Delete_def Let_def split: if_splits prod.splits)
  qed
  show ?case
  proof (cases e)
    case None
    with Cons.prems ap have "run ops s1 fs1 = (err, s', fs')" by simp
    from Cons.IH[OF this] fp1 show ?thesis by simp
  next
    case (Some a)
    with Cons.prems ap fp1 show ?thesis by auto
  qed
qed

lemma run_last_write:
  "store_ok s \<Longrightarrow> run ops s fs = (None, s', fs') \<Longrightarrow> ops \<noteq> [] \<Longrightarrow>
   store_ok s' \<and> fs' (filePath s') = Some (UsersJSON (map json_User (GetAll s')))"
proof (induction ops arbitrary: s fs)
  case Nil
  then show ?case by simp
next
  case (Cons x ops)
  obtain e s1 fs1 where ap: "apply_op x s fs = (e, s1, fs1)" by (cases "apply_op x s fs")
  from Cons.prems(2) ap have e: "e = None" by (cases e) simp_all
  from Cons.prems(2) ap e have rn: "run ops s1 fs1 = (None, s', fs')" by simp
  from ap e have ap': "apply_op x s fs = (None, s1, fs1)" by simp
  from apply_op_store_ok[OF Cons.prems(1) ap'] have ok1: "store_ok s1" .
  from apply_op_success[OF ap'] have w1: "fs1 (filePath s1) = Some (UsersJSON (map json_User (GetAll s1)))"
    by simp
  show ?case
  proof (cases "ops = []")
    case True
    with rn ok1 w1 show ?thesis by simp
  next
    case False
    from Cons.IH[OF ok1 rn False] show ?thesis .
  qed
qed

section \<open>Create and the email conflict\<close>

text \<open>
  Claim C4. \<^verbatim>\<open>Create\<close> fails with \<^verbatim>\<open>ErrUserExists\<close> (the spec's AlreadyExists) if and
  only if some live record has an email equal, as a string, to the email of the new
  record. When no live record has that email and the write goes through, \<^verbatim>\<open>Create\<close>
  returns no error and the record is in the index under its id.
\<close>

theorem Create_AlreadyExists_iff:
  "(fst (Create out user s fs) = Some ErrUserExists
      \<longleftrightarrow> (\<exists>x \<in> set (GetAll s). Email x = Email user)) \<and>
   ((\<forall>x \<in> set (GetAll s). Email x \<noteq> Email user) \<longrightarrow>
      (case Create Written user s fs of (err, s', fs') \<Rightarrow>
         err = None \<and> map_of (users s') = (map_of (users s))(ID user \<mapsto> user) \<and>
         GetByID s' (ID user) = Inr user \<and> user \<in> set (GetAll s')))"
proof (cases "Create_scan (users s) user")
  case True
  then show ?thesis
    by (auto simp: Create_def Create_scan_iff GetAll_eq)
next
  case False
  obtain err fs' where sv: "save out (s\<lparr>users := AList.update (ID user) user (users s)\<rparr>) fs = (err, fs')"
    by (cases "save out (s\<lparr>users := AList.update (ID user) user (users s)\<rparr>) fs")
  from save_cases[OF sv] have "err \<noteq> Some ErrUserExists" by auto
  moreover have "(ID user, user) \<in> set (AList.update (ID user) user (users s))"
    by (rule map_of_SomeD) (simp add: update_conv')
  then have "user \<in> snd ` set (AList.update (ID user) user (users s))"
    by force
  ultimately show ?thesis using False sv
    by (auto simp: Create_def Create_scan_iff GetAll_eq save_Written update_conv' GetByID_def Let_def)
qed

theorem Create_AlreadyExists_iff_witness:
  "fst (Create Written (bob\<lparr>Email := ''a@x.com''\<rparr>) store1 disk1) = Some ErrUserExists \<and>
   (\<exists>x \<in> set (GetAll store1). Email x = ''a@x.com'') \<and>
   map Email (GetAll store1) = [''a@x.com''] \<and>
   fst (Create Written (bob\<lparr>Email := ''A@x.com''\<rparr>) store1 disk1) = None \<and>
   GetByID (fst (snd (Create Written (bob\<lparr>Email := ''A@x.com''\<rparr>) store1 disk1))) ''2''
     = Inr (bob\<lparr>Email := ''A@x.com''\<rparr>)"
  using Create_AlreadyExists_iff [of Written "bob\<lparr>Email := ''a@x.com''\<rparr>" store1 disk1]
        Create_AlreadyExists_iff [of Written "bob\<lparr>Email := ''A@x.com''\<rparr>" store1 disk1]
  by (simp add: GetAll_def Create_def save_def os_WriteFile_def GetByID_def store1_def alice_def bob_def)

section \<open>Reading a record back\<close>

text \<open>
  Claim C7. After a \<^verbatim>\<open>Create\<close> that returned no error, \<^verbatim>\<open>GetByID\<close> on the id of the
  created record returns that record. After a \<^verbatim>\<open>Delete\<close> that returned no error,
  \<^verbatim>\<open>GetByID\<close> on the deleted id fails with \<^verbatim>\<open>ErrUserNotFound\<close>. In a store whose index
  is keyed by the records' ids, \<^verbatim>\<open>GetByID\<close> fails with \<^verbatim>\<open>ErrUserNotFound\<close> exactly when
  no live record has the id, and returns each live record on its id.
\<close>

theorem GetByID_after_Create_Delete:
  "(Create out user s fs = (None, s', fs') \<longrightarrow> GetByID s' (ID user) = Inr user) \<and>
   (Delete out uid s fs = (None, s', fs') \<longrightarrow> GetByID s' uid = Inl ErrUserNotFound) \<and>
   (store_ok s \<longrightarrow>
      (GetByID s uid = Inl ErrUserNotFound \<longleftrightarrow> \<not> (\<exists>x \<in> set (GetAll s). ID x = uid)) \<and>
      (\<forall>x \<in> set (GetAll s). GetByID s (ID x) = Inr x))"
proof (intro conjI impI)
  assume "Create out user s fs = (None, s', fs')"
  then show "GetByID s' (ID user) = Inr user"
    by (auto simp: Create_def Let_def GetByID_update split: if_splits prod.splits)
next
  assume "Delete out uid s fs = (None, s', fs')"
  then show "GetByID s' uid = Inl ErrUserNotFound"
    by (auto simp: Delete_def Let_def GetByID_delete split: if_splits prod.splits)
next
  assume ok: "store_ok s"
  then have "ID ` set (GetAll s) = set (map fst (users s))"
    using keyed_ids[of "users s"] by (simp add: store_ok_def GetAll_eq)
  then show "GetByID s uid = Inl ErrUserNotFound \<longleftrightarrow> \<not> (\<exists>x \<in> set (GetAll s). ID x = uid)"
    unfolding GetByID_NotFound_iff by (metis imageE imageI)
next
  assume ok: "store_ok s"
  show "\<forall>x \<in> set (GetAll s). GetByID s (ID x) = Inr x"
  proof
    fix x assume "x \<in> set (GetAll s)"
    then obtain k where kx: "(k, x) \<in> set (users s)" by (auto simp: GetAll_eq)
    with ok have "ID x = k" by (auto simp: store_ok_def keyed_by_id_def list_all_iff)
    moreover from ok kx have "map_of (users s) k = Some x" by (simp add: store_ok_def is_map_def)
    ultimately show "GetByID s (ID x) = Inr x" by (simp add: GetByID_def)
  qed
qed

theorem GetByID_after_Create_Delete_witness:
  "Create Written alice store0 disk0 = (None, store1, disk1) \<and>
   GetByID store1 (ID alice) = Inr alice \<and>
   Delete Written ''1'' store1 disk1 = (None, store0, [''data/users.json'' \<mapsto> UsersJSON []]) \<and>
   GetByID store0 ''1'' = Inl ErrUserNotFound \<and>
   store_ok store1 \<and>
   GetByID store1 ''2'' = Inl ErrUserNotFound \<and>
   ''2'' \<notin> ID ` set (GetAll store1) \<and>
   GetAll store1 = [alice]"
  using GetByID_after_Create_Delete [of Written alice store0 disk0 store1 disk1 "''1''"]
        GetByID_after_Create_Delete [of Written alice store1 disk1 store0 "[''data/users.json'' \<mapsto> UsersJSON []]" "''1''"]
        GetByID_after_Create_Delete [of Written alice store1 disk1 store0 disk0 "''2''"]
  by (simp add: Create_def Delete_def save_def os_WriteFile_def json_MarshalIndent_def json_User_def json_Time_def rune_len_def utc_def
      GetByID_def GetAll_def store_ok_def is_map_def keyed_by_id_def
      store0_def store1_def disk0_def disk1_def alice_def)

section \<open>Create checks emails, not ids\<close>

text \<open>
  Claim C10. \<^verbatim>\<open>Create\<close> makes no check on the id. When the store already holds a record
  under the id of the new record and no live record has the new record's email, a
  \<^verbatim>\<open>Create\<close> whose write goes through returns no error and the new record takes the
  place of the old one, which is gone from the store. When the new record carries the
  email of the record stored under its id, \<^verbatim>\<open>Create\<close> fails with \<^verbatim>\<open>ErrUserExists\<close> and
  changes nothing. \<^verbatim>\<open>Create\<close> returns no error other than \<^verbatim>\<open>ErrUserExists\<close> and the
  errors of the write: never \<^verbatim>\<open>ErrUserNotFound\<close>, and there is no error for a taken id.
\<close>

theorem Create_no_id_check:
  "(store_ok s \<and> GetByID s (ID user) = Inr old \<and> (\<forall>x \<in> set (GetAll s). Email x \<noteq> Email user) \<longrightarrow>
      (case Create Written user s fs of (err, s', fs') \<Rightarrow>
         err = None \<and> GetByID s' (ID user) = Inr user \<and> old \<notin> set (GetAll s') \<and>
         set (GetAll s') = insert user (set (GetAll s) - {old}))) \<and>
   (GetByID s (ID user) = Inr old \<and> Email user = Email old \<longrightarrow>
      Create out user s fs = (Some ErrUserExists, s, fs)) \<and>
   fst (Create out user s fs) \<in> {None, Some ErrUserExists, Some ErrOS, Some ErrJSON}"
proof (intro conjI impI)
  assume a: "store_ok s \<and> GetByID s (ID user) = Inr old \<and> (\<forall>x \<in> set (GetAll s). Email x \<noteq> Email user)"
  let ?s' = "s\<lparr>users := AList.update (ID user) user (users s)\<rparr>"
  from a have look: "map_of (users s) (ID user) = Some old"
    by (auto simp: GetByID_def split: option.splits)
  then have mem: "(ID user, old) \<in> set (users s)" by (rule map_of_SomeD)
  then have oldin: "old \<in> set (GetAll s)" by (force simp: GetAll_eq)
  with a have ne: "old \<noteq> user" by auto
  from a mem have idold: "ID old = ID user"
    by (auto simp: store_ok_def keyed_by_id_def list_all_iff)
  have uniq: "x = old" if "x \<in> set (GetAll s)" "ID x = ID user" for x
  proof -
    from that obtain j where j: "(j, x) \<in> set (users s)" by (auto simp: GetAll_eq)
    with a that have "j = ID user" by (auto simp: store_ok_def keyed_by_id_def list_all_iff)
    with j a have "map_of (users s) (ID user) = Some x" by (simp add: store_ok_def is_map_def)
    with look show ?thesis by simp
  qed
  have set': "set (GetAll ?s') = insert user (set (GetAll s) - {old})"
    using GetAll_update[of s user "ID user"] a uniq idold by auto
  have noscan: "\<not> Create_scan (users s) user"
    using a by (auto simp: Create_scan_iff GetAll_eq)
  have "Create Written user s fs = (None, ?s', fs(filePath ?s' \<mapsto> UsersJSON (map json_User (GetAll ?s'))))"
    using noscan by (simp add: Create_def Let_def save_Written)
  then show "case Create Written user s fs of (err, s', fs') \<Rightarrow>
         err = None \<and> GetByID s' (ID user) = Inr user \<and> old \<notin> set (GetAll s') \<and>
         set (GetAll s') = insert user (set (GetAll s) - {old})"
    using set' ne by (simp add: GetByID_update)
next
  assume b: "GetByID s (ID user) = Inr old \<and> Email user = Email old"
  then have "map_of (users s) (ID user) = Some old"
    by (auto simp: GetByID_def split: option.splits)
  then have "(ID user, old) \<in> set (users s)" by (rule map_of_SomeD)
  then have "old \<in> set (map snd (users s))" by force
  with b have "Create_scan (users s) user" unfolding Create_scan_iff by metis
  then show "Create out user s fs = (Some ErrUserExists, s, fs)" by (simp add: Create_def)
next
  show "fst (Create out user s fs) \<in> {None, Some ErrUserExists, Some ErrOS, Some ErrJSON}"
  proof (cases "Create_scan (users s) user")
    case True
    then show ?thesis by (simp add: Create_def)
  next
    case False
    obtain err fs' where sv: "save out (s\<lparr>users := AList.update (ID user) user (users s)\<rparr>) fs = (err, fs')"
      by (cases "save out (s\<lparr>users := AList.update (ID user) user (users s)\<rparr>) fs")
    from save_cases[OF sv] False sv show ?thesis
      by (auto simp: Create_def Let_def)
  qed
qed

theorem Create_no_id_check_witness:
  "store_ok store1 \<and> GetByID store1 ''1'' = Inr alice \<and>
   map Email (GetAll store1) = [''a@x.com''] \<and>
   Create Written (bob\<lparr>ID := ''1''\<rparr>) store1 disk1 =
     (None, store1\<lparr>users := [(''1'', bob\<lparr>ID := ''1''\<rparr>)]\<rparr>,
      [''data/users.json'' \<mapsto> UsersJSON [bob\<lparr>ID := ''1''\<rparr>]]) \<and>
   GetAll (store1\<lparr>users := [(''1'', bob\<lparr>ID := ''1''\<rparr>)]\<rparr>) = [bob\<lparr>ID := ''1''\<rparr>] \<and>
   Create Written (alice\<lparr>Name := ''Alicia''\<rparr>) store1 disk1 = (Some ErrUserExists, store1, disk1)"
  using Create_no_id_check [of store1 "bob\<lparr>ID := ''1''\<rparr>" alice disk1 Written]
        Create_no_id_check [of store1 "alice\<lparr>Name := ''Alicia''\<rparr>" alice disk1 Written]
  by (simp add: Create_def save_def os_WriteFile_def json_MarshalIndent_def json_User_def json_Time_def rune_len_def utc_def
      GetByID_def GetAll_def store_ok_def is_map_def keyed_by_id_def
      store1_def disk1_def alice_def bob_def)

section \<open>A failed write\<close>

text \<open>
  Claim C1 says that a mutating operation whose write fails rolls the index back to its
  state before the call. No operation does: each assigns to or deletes from the index and
  then returns whatever \<^verbatim>\<open>save\<close> returns. Here a \<^verbatim>\<open>Create\<close> on the empty store fails in
  \<^verbatim>\<open>os.WriteFile\<close>; it returns the error, and the record it was to insert is in the
  index and is returned by \<^verbatim>\<open>GetByID\<close> and \<^verbatim>\<open>GetAll\<close>.
\<close>

theorem persist_failure_rollback_counterexample:
  "Create (WriteFails None) alice store0 disk0 = (Some ErrOS, store1, disk0) \<and>
   users store1 \<noteq> users store0 \<and>
   GetByID store0 ''1'' = Inl ErrUserNotFound \<and>
   GetByID store1 ''1'' = Inr alice \<and>
   GetAll store0 = [] \<and> GetAll store1 = [alice]"
  by (simp add: Create_def save_def os_WriteFile_def GetByID_def GetAll_def
      store0_def store1_def disk0_def alice_def)

text \<open>
  Claim C1, as amended. When the write does not go through and the checks of the
  operation pass, the operation returns the error of the write (the spec's
  PersistenceError) and leaves the index as it changed it, not as it was: \<^verbatim>\<open>Create\<close>,
  when no live record has the email, and \<^verbatim>\<open>Update\<close>, when the id is present and no
  record stored under another id has the email, leave the record stored under its id,
  where \<^verbatim>\<open>GetByID\<close> and \<^verbatim>\<open>GetAll\<close> return it; \<^verbatim>\<open>Delete\<close>, when the id is present, leaves
  the index without it. When a check stops the operation it returns its sentinel, so with
  a write that does not go through no operation returns without an error; and whenever
  an operation returns the error of a write, the index holds the change.
\<close>

theorem persist_failure_keeps_mutation:
  "(out \<noteq> Written \<longrightarrow>
      ((\<forall>x \<in> set (GetAll s). Email x \<noteq> Email user) \<longrightarrow>
         (\<exists>e fs'. PersistenceError e \<and>
            Create out user s fs =
              (Some e, s\<lparr>users := AList.update (ID user) user (users s)\<rparr>, fs') \<and>
            GetByID (s\<lparr>users := AList.update (ID user) user (users s)\<rparr>) (ID user) = Inr user \<and>
            user \<in> set (GetAll (s\<lparr>users := AList.update (ID user) user (users s)\<rparr>)))) \<and>
      ((\<exists>old. GetByID s (ID user) = Inr old) \<and>
       (\<forall>(k, x) \<in> set (users s). Email x = Email user \<longrightarrow> k = ID user) \<longrightarrow>
         (\<exists>e fs'. PersistenceError e \<and>
            Update out user s fs =
              (Some e, s\<lparr>users := AList.update (ID user) user (users s)\<rparr>, fs') \<and>
            GetByID (s\<lparr>users := AList.update (ID user) user (users s)\<rparr>) (ID user) = Inr user \<and>
            user \<in> set (GetAll (s\<lparr>users := AList.update (ID user) user (users s)\<rparr>)))) \<and>
      ((\<exists>old. GetByID s uid = Inr old) \<longrightarrow>
         (\<exists>e fs'. PersistenceError e \<and>
            Delete out uid s fs = (Some e, s\<lparr>users := AList.delete uid (users s)\<rparr>, fs') \<and>
            GetByID (s\<lparr>users := AList.delete uid (users s)\<rparr>) uid = Inl ErrUserNotFound))) \<and>
   (out \<noteq> Written \<longrightarrow>
      (\<exists>e. fst (Create out user s fs) = Some e \<and> (e = ErrUserExists \<or> PersistenceError e)) \<and>
      (\<exists>e. fst (Update out user s fs) = Some e \<and>
           (e = ErrUserNotFound \<or> e = ErrUserExists \<or> PersistenceError e)) \<and>
      (\<exists>e. fst (Delete out uid s fs) = Some e \<and> (e = ErrUserNotFound \<or> PersistenceError e))) \<and>
   (PersistenceError e \<longrightarrow>
      (Create out user s fs = (Some e, s', fs') \<longrightarrow>
         users s' = AList.update (ID user) user (users s) \<and>
         GetByID s' (ID user) = Inr user \<and> user \<in> set (GetAll s')) \<and>
      (Update out user s fs = (Some e, s', fs') \<longrightarrow>
         users s' = AList.update (ID user) user (users s) \<and>
         GetByID s' (ID user) = Inr user \<and> user \<in> set (GetAll s')) \<and>
      (Delete out uid s fs = (Some e, s', fs') \<longrightarrow>
         users s' = AList.delete uid (users s) \<and>
         GetByID s' uid = Inl ErrUserNotFound \<and> (\<exists>x. GetByID s uid = Inr x)))"
proof -
  let ?sU = "s\<lparr>users := AList.update (ID user) user (users s)\<rparr>"
  let ?sD = "s\<lparr>users := AList.delete uid (users s)\<rparr>"
  have mem: "user \<in> set (GetAll ?sU)"
  proof -
    have "(ID user, user) \<in> set (AList.update (ID user) user (users s))"
      by (rule map_of_SomeD) (simp add: update_conv')
    then show ?thesis by (force simp: GetAll_eq)
  qed
  have A1: "\<exists>e fs'. PersistenceError e \<and> Create out user s fs = (Some e, ?sU, fs') \<and>
            GetByID ?sU (ID user) = Inr user \<and> user \<in> set (GetAll ?sU)"
    if o: "out \<noteq> Written" and c: "\<forall>x \<in> set (GetAll s). Email x \<noteq> Email user"
  proof -
    from c have "\<not> Create_scan (users s) user"
      by (auto simp: Create_scan_iff GetAll_eq)
    moreover from save_fails_error[OF o, of ?sU fs] obtain e fs' where
      "save out ?sU fs = (Some e, fs')" "PersistenceError e" by blast
    ultimately show ?thesis using mem
      by (auto simp: Create_def Let_def GetByID_update)
  qed
  have A2: "\<exists>e fs'. PersistenceError e \<and> Update out user s fs = (Some e, ?sU, fs') \<and>
            GetByID ?sU (ID user) = Inr user \<and> user \<in> set (GetAll ?sU)"
    if o: "out \<noteq> Written" and c: "(\<exists>old. GetByID s (ID user) = Inr old) \<and>
       (\<forall>(k, x) \<in> set (users s). Email x = Email user \<longrightarrow> k = ID user)"
  proof -
    from c have "\<not> Update_scan (users s) user"
      unfolding Update_scan_iff by blast
    moreover from c have "map_of (users s) (ID user) \<noteq> None"
      by (cases "map_of (users s) (ID user)") (auto simp: GetByID_def)
    moreover from save_fails_error[OF o, of ?sU fs] obtain e fs' where
      "save out ?sU fs = (Some e, fs')" "PersistenceError e" by blast
    ultimately show ?thesis using mem
      by (auto simp: Update_def Let_def GetByID_update)
  qed
  have A3: "\<exists>e fs'. PersistenceError e \<and> Delete out uid s fs = (Some e, ?sD, fs') \<and>
            GetByID ?sD uid = Inl ErrUserNotFound"
    if o: "out \<noteq> Written" and c: "\<exists>old. GetByID s uid = Inr old"
  proof -
    from c have "map_of (users s) uid \<noteq> None"
      by (cases "map_of (users s) uid") (auto simp: GetByID_def)
    moreover from save_fails_error[OF o, of ?sD fs] obtain e fs' where
      "save out ?sD fs = (Some e, fs')" "PersistenceError e" by blast
    ultimately show ?thesis
      by (auto simp: Delete_def Let_def GetByID_delete)
  qed
  have B: "(\<exists>e. fst (Create out user s fs) = Some e \<and> (e = ErrUserExists \<or> PersistenceError e)) \<and>
      (\<exists>e. fst (Update out user s fs) = Some e \<and>
           (e = ErrUserNotFound \<or> e = ErrUserExists \<or> PersistenceError e)) \<and>
      (\<exists>e. fst (Delete out uid s fs) = Some e \<and> (e = ErrUserNotFound \<or> PersistenceError e))"
    if o: "out \<noteq> Written"
  proof (intro conjI)
    note sf = save_fails[OF o]
    show "\<exists>e. fst (Create out user s fs) = Some e \<and> (e = ErrUserExists \<or> PersistenceError e)"
      using sf[of ?sU fs] by (auto simp: Create_def Let_def split: prod.splits)
    show "\<exists>e. fst (Update out user s fs) = Some e \<and>
           (e = ErrUserNotFound \<or> e = ErrUserExists \<or> PersistenceError e)"
      using sf[of ?sU fs] by (auto simp: Update_def Let_def split: prod.splits)
    show "\<exists>e. fst (Delete out uid s fs) = Some e \<and> (e = ErrUserNotFound \<or> PersistenceError e)"
      using sf[of ?sD fs] by (auto simp: Delete_def Let_def split: prod.splits)
  qed
  have C1: "users s' = AList.update (ID user) user (users s) \<and>
         GetByID s' (ID user) = Inr user \<and> user \<in> set (GetAll s')"
    if pe: "PersistenceError e" and c: "Create out user s fs = (Some e, s', fs')"
  proof -
    from Create_persist_fails[OF c pe] have "s' = ?sU" by simp
    then show ?thesis using mem by (simp add: GetByID_update)
  qed
  have C2: "users s' = AList.update (ID user) user (users s) \<and>
         GetByID s' (ID user) = Inr user \<and> user \<in> set (GetAll s')"
    if pe: "PersistenceError e" and c: "Update out user s fs = (Some e, s', fs')"
  proof -
    from Update_persist_fails[OF c pe] have "s' = ?sU" by simp
    then show ?thesis using mem by (simp add: GetByID_update)
  qed
  have C3: "users s' = AList.delete uid (users s) \<and>
         GetByID s' uid = Inl ErrUserNotFound \<and> (\<exists>x. GetByID s uid = Inr x)"
    if pe: "PersistenceError e" and c: "Delete out uid s fs = (Some e, s', fs')"
  proof -
    from Delete_persist_fails[OF c pe] have "s' = ?sD" by simp
    moreover from c pe have "\<exists>x. GetByID s uid = Inr x"
      by (auto simp: Delete_def GetByID_def PersistenceError_def split: if_splits)
    ultimately show ?thesis by (simp add: GetByID_delete)
  qed
  show ?thesis
  proof (intro conjI impI)
    assume o: "out \<noteq> Written"
    {
      assume "\<forall>x \<in> set (GetAll s). Email x \<noteq> Email user"
      from A1[OF o this] show "\<exists>e fs'. PersistenceError e \<and>
            Create out user s fs = (Some e, ?sU, fs') \<and>
            GetByID ?sU (ID user) = Inr user \<and> user \<in> set (GetAll ?sU)" .
    }
    {
      assume "(\<exists>old. GetByID s (ID user) = Inr old) \<and>
         (\<forall>(k, x) \<in> set (users s). Email x = Email user \<longrightarrow> k = ID user)"
      from A2[OF o this] show "\<exists>e fs'. PersistenceError e \<and>
            Update out user s fs = (Some e, ?sU, fs') \<and>
            GetByID ?sU (ID user) = Inr user \<and> user \<in> set (GetAll ?sU)" .
    }
    {
      assume "\<exists>old. GetByID s uid = Inr old"
      from A3[OF o this] show "\<exists>e fs'. PersistenceError e \<and>
            Delete out uid s fs = (Some e, ?sD, fs') \<and>
            GetByID ?sD uid = Inl ErrUserNotFound" .
    }
  next
    assume o: "out \<noteq> Written"
    from B[OF o] show
      "\<exists>e. fst (Create out user s fs) = Some e \<and> (e = ErrUserExists \<or> PersistenceError e)"
      "\<exists>e. fst (Update out user s fs) = Some e \<and>
           (e = ErrUserNotFound \<or> e = ErrUserExists \<or> PersistenceError e)"
      "\<exists>e. fst (Delete out uid s fs) = Some e \<and> (e = ErrUserNotFound \<or> PersistenceError e)"
      by simp_all
  next
    assume pe: "PersistenceError e"
    {
      assume c: "Create out user s fs = (Some e, s', fs')"
      from C1[OF pe c] show "users s' = AList.update (ID user) user (users s)"
        "GetByID s' (ID user) = Inr user" "user \<in> set (GetAll s')" by simp_all
    }
    {
      assume c: "Update out user s fs = (Some e, s', fs')"
      from C2[OF pe c] show "users s' = AList.update (ID user) user (users s)"
        "GetByID s' (ID user) = Inr user" "user \<in> set (GetAll s')" by simp_all
    }
    {
      assume c: "Delete out uid s fs = (Some e, s', fs')"
      from C3[OF pe c] show "users s' = AList.delete uid (users s)"
        "GetByID s' uid = Inl ErrUserNotFound" "\<exists>x. GetByID s uid = Inr x" by simp_all
    }
  qed
qed

theorem persist_failure_keeps_mutation_witness:
  "WriteFails (Some NoBytes) \<noteq> Written \<and> PersistenceError ErrOS \<and>
   map Email (GetAll store1) = [''a@x.com''] \<and>
   GetByID store1 ''1'' = Inr alice \<and>
   Create (WriteFails (Some NoBytes)) bob store1 disk1 =
     (Some ErrOS, store1\<lparr>users := [(''1'', alice), (''2'', bob)]\<rparr>, [''data/users.json'' \<mapsto> NoBytes]) \<and>
   GetByID (store1\<lparr>users := [(''1'', alice), (''2'', bob)]\<rparr>) ''2'' = Inr bob \<and>
   Update (WriteFails (Some NoBytes)) (alice\<lparr>Name := ''Alicia''\<rparr>) store1 disk1 =
     (Some ErrOS, store1\<lparr>users := [(''1'', alice\<lparr>Name := ''Alicia''\<rparr>)]\<rparr>, [''data/users.json'' \<mapsto> NoBytes]) \<and>
   GetByID (store1\<lparr>users := [(''1'', alice\<lparr>Name := ''Alicia''\<rparr>)]\<rparr>) ''1'' = Inr (alice\<lparr>Name := ''Alicia''\<rparr>) \<and>
   Delete (WriteFails (Some NoBytes)) ''1'' store1 disk1 =
     (Some ErrOS, store1\<lparr>users := []\<rparr>, [''data/users.json'' \<mapsto> NoBytes]) \<and>
   GetByID (store1\<lparr>users := []\<rparr>) ''1'' = Inl ErrUserNotFound"
  using persist_failure_keeps_mutation [where out = "WriteFails (Some NoBytes)" and user = bob
          and s = store1 and fs = disk1 and uid = "''1''" and e = ErrOS
          and s' = "store1\<lparr>users := [(''1'', alice), (''2'', bob)]\<rparr>"
          and fs' = "[''data/users.json'' \<mapsto> NoBytes]"]
        persist_failure_keeps_mutation [where out = "WriteFails (Some NoBytes)"
          and user = "alice\<lparr>Name := ''Alicia''\<rparr>"
          and s = store1 and fs = disk1 and uid = "''1''" and e = ErrOS
          and s' = "store1\<lparr>users := [(''1'', alice\<lparr>Name := ''Alicia''\<rparr>)]\<rparr>"
          and fs' = "[''data/users.json'' \<mapsto> NoBytes]"]
        persist_failure_keeps_mutation [where out = "WriteFails (Some NoBytes)" and user = bob
          and s = store1 and fs = disk1 and uid = "''1''" and e = ErrOS
          and s' = "store1\<lparr>users := []\<rparr>"
          and fs' = "[''data/users.json'' \<mapsto> NoBytes]"]
  by (simp add: Create_def Update_def Delete_def save_def os_WriteFile_def
      PersistenceError_def GetByID_def GetAll_def store1_def disk1_def alice_def bob_def)

section \<open>Uniqueness of emails\<close>

text \<open>
  Claim C2. Starting from a store in which no two live records share an email, every
  state passed through by a sequence of \<^verbatim>\<open>Create\<close> and \<^verbatim>\<open>Update\<close> calls (and
  \<^verbatim>\<open>Delete\<close> calls, and whether or not a call or its write fails) has no two live records
  with the same email string.
\<close>

theorem unique_emails_invariant:
  "is_map (users s) \<Longrightarrow> unique_emails s \<Longrightarrow>
   \<forall>st \<in> set (states ops s fs). unique_emails (fst st)"
proof (induction ops arbitrary: s fs)
  case Nil
  then show ?case by simp
next
  case (Cons x ops)
  obtain err s' fs' where ap: "apply_op x s fs = (err, s', fs')"
    by (cases "apply_op x s fs")
  from apply_op_unique[OF Cons.prems ap] have "is_map (users s')" "unique_emails s'"
    by simp_all
  then have "\<forall>st \<in> set (states ops s' fs'). unique_emails (fst st)"
    by (rule Cons.IH)
  with Cons.prems ap show ?case by simp
qed

theorem unique_emails_invariant_witness:
  "is_map (users store1) \<and> unique_emails store1 \<and>
   map (\<lambda>st. map (\<lambda>(k, user). Email user) (users (fst st)))
     (states [(Written, OpCreate bob),
              (Written, OpCreate (bob\<lparr>ID := ''3''\<rparr>)),
              (Written, OpUpdate (alice\<lparr>Email := ''b@x.com''\<rparr>)),
              (Written, OpUpdate (alice\<lparr>Email := ''c@x.com''\<rparr>))] store1 disk1)
   = [[''a@x.com''], [''a@x.com'', ''b@x.com''], [''a@x.com'', ''b@x.com''],
      [''a@x.com'', ''b@x.com''], [''c@x.com'', ''b@x.com'']]"
  using unique_emails_invariant [of store1 "[(Written, OpCreate bob),
              (Written, OpCreate (bob\<lparr>ID := ''3''\<rparr>)),
              (Written, OpUpdate (alice\<lparr>Email := ''b@x.com''\<rparr>)),
              (Written, OpUpdate (alice\<lparr>Email := ''c@x.com''\<rparr>))]" disk1]
  by (simp add: Create_def Update_def save_def os_WriteFile_def json_MarshalIndent_def json_User_def json_Time_def rune_len_def utc_def
      is_map_def unique_emails_def store1_def disk1_def alice_def bob_def)

section \<open>Update and the email conflict\<close>

text \<open>
  Claim C5 says that \<^verbatim>\<open>Update\<close> fails with \<^verbatim>\<open>ErrUserExists\<close> if and only if a live record
  with another id has the email, and that an update of a record to its own email always
  succeeds. \<^verbatim>\<open>Update\<close> looks the id up first: with alice alone in the store, an update
  for the absent id 2 that carries alice's email fails with \<^verbatim>\<open>ErrUserNotFound\<close>, not
  \<^verbatim>\<open>ErrUserExists\<close>. And \<^verbatim>\<open>load\<close> checks no emails: loaded from a snapshot in which
  records 1 and 2 share an email, the store refuses the update of record 1 to its own
  email with \<^verbatim>\<open>ErrUserExists\<close>.
\<close>

theorem Update_AlreadyExists_counterexample:
  "GetAll store1 = [alice] \<and> ID alice \<noteq> ID (bob\<lparr>Email := ''a@x.com''\<rparr>) \<and>
   Email alice = Email (bob\<lparr>Email := ''a@x.com''\<rparr>) \<and>
   Update Written (bob\<lparr>Email := ''a@x.com''\<rparr>) store1 disk1 = (Some ErrUserNotFound, store1, disk1) \<and>
   NewJSONStore True True disk_same_email ''data/users.json'' =
     Inr (store0\<lparr>users := [(''1'', alice), (''2'', bob\<lparr>Email := ''a@x.com''\<rparr>)]\<rparr>) \<and>
   GetByID (store0\<lparr>users := [(''1'', alice), (''2'', bob\<lparr>Email := ''a@x.com''\<rparr>)]\<rparr>) ''1'' = Inr alice \<and>
   fst (Update Written alice (store0\<lparr>users := [(''1'', alice), (''2'', bob\<lparr>Email := ''a@x.com''\<rparr>)]\<rparr>)
          disk_same_email) = Some ErrUserExists"
  by (simp add: Update_def GetAll_def GetByID_def NewJSONStore_def load_def os_ReadFile_def
      json_Unmarshal_def os_IsNotExist_def store0_def store1_def disk_same_email_def alice_def bob_def)

text \<open>
  Claim C5, as amended. In a store keyed by the records' ids, \<^verbatim>\<open>Update\<close> fails with
  \<^verbatim>\<open>ErrUserExists\<close> if and only if a live record has the id of the supplied record and a
  live record with a different id has its email; it fails with \<^verbatim>\<open>ErrUserNotFound\<close> if and
  only if no live record has the id, whatever the emails. When no two live records share
  an email, an update of a live record that keeps its id and its email fails with neither
  error, and returns no error when the write goes through.
\<close>

theorem Update_AlreadyExists_iff:
  "store_ok s \<Longrightarrow>
   (fst (Update out user s fs) = Some ErrUserExists \<longleftrightarrow>
      (\<exists>y \<in> set (GetAll s). ID y = ID user) \<and>
      (\<exists>x \<in> set (GetAll s). ID x \<noteq> ID user \<and> Email x = Email user)) \<and>
   (fst (Update out user s fs) = Some ErrUserNotFound \<longleftrightarrow>
      \<not> (\<exists>y \<in> set (GetAll s). ID y = ID user)) \<and>
   (unique_emails s \<and> x \<in> set (GetAll s) \<and> ID user = ID x \<and> Email user = Email x \<longrightarrow>
      fst (Update out user s fs) \<noteq> Some ErrUserExists \<and>
      fst (Update out user s fs) \<noteq> Some ErrUserNotFound \<and>
      fst (Update Written user s fs) = None)"
proof -
  assume ok: "store_ok s"
  define present where "present = (\<exists>y \<in> set (GetAll s). ID y = ID user)"
  define clash where "clash = (\<exists>x \<in> set (GetAll s). ID x \<noteq> ID user \<and> Email x = Email user)"
  define r where "r = fst (save out (s\<lparr>users := AList.update (ID user) user (users s)\<rparr>) fs)"
  have pr: "map_of (users s) (ID user) = None \<longleftrightarrow> \<not> present"
    unfolding present_def by (rule present_iff[OF ok])
  have sc: "Update_scan (users s) user \<longleftrightarrow> clash"
    unfolding clash_def by (rule Update_scan_ids[OF ok])
  have ns: "r \<noteq> Some ErrUserExists" "r \<noteq> Some ErrUserNotFound"
    using save_not_sentinel[of out "s\<lparr>users := AList.update (ID user) user (users s)\<rparr>" fs]
    by (simp_all add: r_def)
  have res: "fst (Update out user s fs) =
     (if \<not> present then Some ErrUserNotFound else if clash then Some ErrUserExists else r)"
    by (simp add: Update_result pr sc r_def)
  have A: "fst (Update out user s fs) = Some ErrUserExists \<longleftrightarrow> present \<and> clash"
    using ns by (simp add: res)
  have B: "fst (Update out user s fs) = Some ErrUserNotFound \<longleftrightarrow> \<not> present"
    using ns by (simp add: res)
  have C: "fst (Update out user s fs) \<noteq> Some ErrUserExists \<and>
      fst (Update out user s fs) \<noteq> Some ErrUserNotFound \<and>
      fst (Update Written user s fs) = None"
    if h: "unique_emails s \<and> x \<in> set (GetAll s) \<and> ID user = ID x \<and> Email user = Email x"
  proof -
    from h have pres: present by (auto simp: present_def)
    have none: "\<not> clash"
    proof
      assume clash
      then obtain z where z: "z \<in> set (GetAll s)" "ID z \<noteq> ID user" "Email z = Email user"
        by (auto simp: clash_def)
      from h z obtain j k where jk: "(j, x) \<in> set (users s)" "(k, z) \<in> set (users s)"
        by (auto simp: GetAll_eq)
      from h have inj: "inj_on (\<lambda>(k, user). Email user) (set (users s))"
        by (simp add: unique_emails_def distinct_map)
      from h z have eq: "Email x = Email z" by simp
      have "(j, x) = (k, z)"
        by (rule inj_onD[OF inj _ jk]) (simp add: eq)
      then have "x = z" by simp
      with h z(2) show False by simp
    qed
    from pres none pr sc have "map_of (users s) (ID user) \<noteq> None" "\<not> Update_scan (users s) user"
      by simp_all
    moreover have "fst (Update out user s fs) = r"
      using pres none by (simp add: res)
    ultimately show ?thesis using ns by (simp add: Update_result save_Written)
  qed
  show ?thesis
  proof (intro conjI impI)
    show "fst (Update out user s fs) = Some ErrUserExists \<longleftrightarrow>
      (\<exists>y \<in> set (GetAll s). ID y = ID user) \<and>
      (\<exists>x \<in> set (GetAll s). ID x \<noteq> ID user \<and> Email x = Email user)"
      using A unfolding present_def clash_def .
    show "fst (Update out user s fs) = Some ErrUserNotFound \<longleftrightarrow>
      \<not> (\<exists>y \<in> set (GetAll s). ID y = ID user)"
      using B unfolding present_def .
  next
    assume h: "unique_emails s \<and> x \<in> set (GetAll s) \<and> ID user = ID x \<and> Email user = Email x"
    from C[OF h] show "fst (Update out user s fs) \<noteq> Some ErrUserExists"
      "fst (Update out user s fs) \<noteq> Some ErrUserNotFound"
      "fst (Update Written user s fs) = None" by simp_all
  qed
qed

theorem Update_AlreadyExists_iff_witness:
  "store_ok store2 \<and>
   unique_emails store2 \<and>
   GetAll store2 = [alice, bob] \<and>
   fst (Update Written (bob\<lparr>Email := ''a@x.com''\<rparr>) store2 disk1)
     = Some ErrUserExists \<and>
   fst (Update Written (bob\<lparr>ID := ''3''\<rparr>) store2 disk1)
     = Some ErrUserNotFound \<and>
   fst (Update Written (bob\<lparr>Name := ''Robert''\<rparr>) store2 disk1)
     = None"
  using Update_AlreadyExists_iff [of store2 Written "bob\<lparr>Email := ''a@x.com''\<rparr>" disk1 bob]
        Update_AlreadyExists_iff [of store2 Written "bob\<lparr>ID := ''3''\<rparr>" disk1 bob]
        Update_AlreadyExists_iff [of store2 Written "bob\<lparr>Name := ''Robert''\<rparr>" disk1 bob]
  by (simp add: GetAll_def store_ok_def is_map_def keyed_by_id_def unique_emails_def
      store2_def alice_def bob_def)

section \<open>What Update stores\<close>

text \<open>
  Claim C6. An \<^verbatim>\<open>Update\<close> that returned no error was given the id of a record in the
  store, and leaves exactly the supplied record under that id: \<^verbatim>\<open>GetByID\<close> returns it,
  with the name, email, update time and creation time the caller supplied, and no other
  entry of the index changes. After any number of updates of one id that all returned no
  error and each carried the creation time of the record first stored there,
  \<^verbatim>\<open>GetByID\<close> returns a record with that creation time (the last record supplied, if
  there was an update at all).
\<close>

theorem Update_stores_record:
  "(Update out r s fs = (None, s', fs') \<longrightarrow>
      (\<exists>old. GetByID s (ID r) = Inr old) \<and>
      GetByID s' (ID r) = Inr r \<and>
      map_of (users s') = (map_of (users s))(ID r \<mapsto> r)) \<and>
   (GetByID s uid = Inr x \<and>
    (\<forall>(out, r) \<in> set rs. ID r = uid \<and> CreatedAt r = CreatedAt x) \<and>
    run (map (\<lambda>(out, r). (out, OpUpdate r)) rs) s fs = (None, s'', fs'') \<longrightarrow>
      (\<exists>y. GetByID s'' uid = Inr y \<and> CreatedAt y = CreatedAt x \<and>
           (rs \<noteq> [] \<longrightarrow> y = snd (last rs))))"
proof (intro conjI impI)
  assume u: "Update out r s fs = (None, s', fs')"
  from Update_success[OF u] have s': "s' = s\<lparr>users := AList.update (ID r) r (users s)\<rparr>"
    and pres: "map_of (users s) (ID r) \<noteq> None" by simp_all
  from pres show "\<exists>old. GetByID s (ID r) = Inr old"
    by (cases "map_of (users s) (ID r)") (simp_all add: GetByID_def)
  show "GetByID s' (ID r) = Inr r" by (simp add: s' GetByID_update)
  show "map_of (users s') = (map_of (users s))(ID r \<mapsto> r)" by (simp add: s' update_conv')
next
  assume a: "GetByID s uid = Inr x \<and>
    (\<forall>(out, r) \<in> set rs. ID r = uid \<and> CreatedAt r = CreatedAt x) \<and>
    run (map (\<lambda>(out, r). (out, OpUpdate r)) rs) s fs = (None, s'', fs'')"
  then show "\<exists>y. GetByID s'' uid = Inr y \<and> CreatedAt y = CreatedAt x \<and>
           (rs \<noteq> [] \<longrightarrow> y = snd (last rs))"
    using run_updates_last[of s uid x rs fs s'' fs''] by blast
qed

theorem Update_stores_record_witness:
  "Update Written (alice\<lparr>Name := ''Alicia'', Email := ''al@x.com'', UpdatedAt := utc 300\<rparr>) store1 disk1 =
     (None, store1\<lparr>users := [(''1'', alice\<lparr>Name := ''Alicia'', Email := ''al@x.com'', UpdatedAt := utc 300\<rparr>)]\<rparr>,
      [''data/users.json'' \<mapsto> UsersJSON [alice\<lparr>Name := ''Alicia'', Email := ''al@x.com'', UpdatedAt := utc 300\<rparr>]]) \<and>
   GetByID store1 ''1'' = Inr alice \<and>
   GetByID (store1\<lparr>users := [(''1'', alice\<lparr>Name := ''Alicia'', Email := ''al@x.com'', UpdatedAt := utc 300\<rparr>)]\<rparr>) ''1''
     = Inr (alice\<lparr>Name := ''Alicia'', Email := ''al@x.com'', UpdatedAt := utc 300\<rparr>) \<and>
   run (map (\<lambda>(out, r). (out, OpUpdate r))
          [(Written, alice\<lparr>Name := ''Alicia'', UpdatedAt := utc 300\<rparr>),
           (Written, alice\<lparr>Email := ''al@x.com'', UpdatedAt := utc 400\<rparr>)]) store1 disk1 =
     (None, store1\<lparr>users := [(''1'', alice\<lparr>Email := ''al@x.com'', UpdatedAt := utc 400\<rparr>)]\<rparr>,
      [''data/users.json'' \<mapsto> UsersJSON [alice\<lparr>Email := ''al@x.com'', UpdatedAt := utc 400\<rparr>]]) \<and>
   CreatedAt (alice\<lparr>Email := ''al@x.com'', UpdatedAt := utc 400\<rparr>) = CreatedAt alice"
  using Update_stores_record [of Written "alice\<lparr>Name := ''Alicia'', Email := ''al@x.com'', UpdatedAt := utc 300\<rparr>" store1 disk1
          "store1\<lparr>users := [(''1'', alice\<lparr>Name := ''Alicia'', Email := ''al@x.com'', UpdatedAt := utc 300\<rparr>)]\<rparr>"
          "[''data/users.json'' \<mapsto> UsersJSON [alice\<lparr>Name := ''Alicia'', Email := ''al@x.com'', UpdatedAt := utc 300\<rparr>]]"
          "''1''" alice
          "[(Written, alice\<lparr>Name := ''Alicia'', UpdatedAt := utc 300\<rparr>),
           (Written, alice\<lparr>Email := ''al@x.com'', UpdatedAt := utc 400\<rparr>)]"
          "store1\<lparr>users := [(''1'', alice\<lparr>Email := ''al@x.com'', UpdatedAt := utc 400\<rparr>)]\<rparr>"
          "[''data/users.json'' \<mapsto> UsersJSON [alice\<lparr>Email := ''al@x.com'', UpdatedAt := utc 400\<rparr>]]"]
  by (simp add: Update_def save_def os_WriteFile_def json_MarshalIndent_def json_User_def json_Time_def rune_len_def utc_def GetByID_def
      store1_def disk1_def alice_def)

section \<open>The index and the snapshot\<close>

text \<open>
  Claim C3 says that after a successful mutating operation, and after a successful load,
  the records in the index are the records in the snapshot file. Neither holds for every
  input. \<^verbatim>\<open>load\<close> stores every decoded record under its id, so of two records of the
  file with one id only the later is in the index: here the file holds two records with
  id 1, and the store built from it holds one. And \<^verbatim>\<open>save\<close> writes the records through
  \<^verbatim>\<open>json.MarshalIndent\<close>: here a \<^verbatim>\<open>Create\<close> of a record whose name is the byte 0xFF
  returns no error, the index holds the record with that name, and the snapshot holds it
  with the name U+FFFD.
\<close>

theorem index_equals_snapshot_counterexample:
  "NewJSONStore True True disk_same_id ''data/users.json'' =
     Inr (store0\<lparr>users := [(''1'', alice\<lparr>Name := ''Alicia''\<rparr>)]\<rparr>) \<and>
   set (GetAll (store0\<lparr>users := [(''1'', alice\<lparr>Name := ''Alicia''\<rparr>)]\<rparr>)) = {alice\<lparr>Name := ''Alicia''\<rparr>} \<and>
   snapshot_records disk_same_id ''data/users.json'' = {alice, alice\<lparr>Name := ''Alicia''\<rparr>} \<and>
   set (GetAll (store0\<lparr>users := [(''1'', alice\<lparr>Name := ''Alicia''\<rparr>)]\<rparr>))
     \<noteq> snapshot_records disk_same_id ''data/users.json'' \<and>
   Create Written carol store0 disk0 =
     (None, store0\<lparr>users := [(''3'', carol)]\<rparr>, [''data/users.json'' \<mapsto> UsersJSON [carol_written]]) \<and>
   set (GetAll (store0\<lparr>users := [(''3'', carol)]\<rparr>)) = {carol} \<and>
   snapshot_records [''data/users.json'' \<mapsto> UsersJSON [carol_written]] ''data/users.json''
     = {carol_written} \<and>
   set (GetAll (store0\<lparr>users := [(''3'', carol)]\<rparr>))
     \<noteq> snapshot_records [''data/users.json'' \<mapsto> UsersJSON [carol_written]] ''data/users.json''"
  by (simp add: NewJSONStore_def load_def os_ReadFile_def json_Unmarshal_def os_IsNotExist_def
      Create_def save_def os_WriteFile_def json_MarshalIndent_def json_User_def json_Time_def
      rune_len_def utc_def GetAll_def snapshot_records_def store0_def disk0_def disk_same_id_def
      alice_def carol_def carol_written_def)

text \<open>
  Claim C3, as amended. Immediately after a \<^verbatim>\<open>Create\<close>, \<^verbatim>\<open>Update\<close> or \<^verbatim>\<open>Delete\<close> that
  returned no error, the records in the snapshot file are the records of the index as
  \<^verbatim>\<open>json.MarshalIndent\<close> writes them, and the two sets are equal when every record of the
  index is written unchanged (its strings are well-formed UTF-8 and the zone offsets of
  its times are whole minutes). Immediately after a successful \<^verbatim>\<open>load\<close> into the fresh
  store, and for the store that \<^verbatim>\<open>NewJSONStore\<close> returns, the set of records in the index
  equals the set of records in the snapshot file when the records of the file have
  pairwise distinct ids.
\<close>

theorem index_equals_snapshot:
  "(Create out user s fs = (None, s', fs') \<longrightarrow>
      snapshot_records fs' (filePath s') = json_User ` set (GetAll s') \<and>
      ((\<forall>u \<in> set (GetAll s'). json_User u = u) \<longrightarrow>
         set (GetAll s') = snapshot_records fs' (filePath s'))) \<and>
   (Update out user s fs = (None, s', fs') \<longrightarrow>
      snapshot_records fs' (filePath s') = json_User ` set (GetAll s') \<and>
      ((\<forall>u \<in> set (GetAll s'). json_User u = u) \<longrightarrow>
         set (GetAll s') = snapshot_records fs' (filePath s'))) \<and>
   (Delete out uid s fs = (None, s', fs') \<longrightarrow>
      snapshot_records fs' (filePath s') = json_User ` set (GetAll s') \<and>
      ((\<forall>u \<in> set (GetAll s'). json_User u = u) \<longrightarrow>
         set (GetAll s') = snapshot_records fs' (filePath s'))) \<and>
   ((\<forall>us. fs path = Some (UsersJSON us) \<longrightarrow> distinct (map ID us)) \<longrightarrow>
      (load readable \<lparr>filePath = path, users = []\<rparr> fs = (None, s0) \<longrightarrow>
         set (GetAll s0) = snapshot_records fs path) \<and>
      (NewJSONStore mkdir_ok readable fs path = Inr s0 \<longrightarrow>
         set (GetAll s0) = snapshot_records fs path))"
proof -
  have W: "snapshot_records fs' (filePath s') = json_User ` set (GetAll s') \<and>
      ((\<forall>u \<in> set (GetAll s'). json_User u = u) \<longrightarrow>
         set (GetAll s') = snapshot_records fs' (filePath s'))"
    if w: "filePath s' = filePath s \<and> fs' = fs(filePath s \<mapsto> UsersJSON (map json_User (GetAll s')))"
  proof -
    from w have sr: "snapshot_records fs' (filePath s') = json_User ` set (GetAll s')"
      by (simp add: snapshot_records_def)
    have "json_User ` set (GetAll s') = set (GetAll s')"
      if "\<forall>u \<in> set (GetAll s'). json_User u = u"
      using that by force
    with sr show ?thesis by simp
  qed
  have L: "set (GetAll t) = snapshot_records fs path"
    if d: "\<forall>us. fs path = Some (UsersJSON us) \<longrightarrow> distinct (map ID us)"
      and n: "NewJSONStore True True fs path = Inr t" for t
  proof (cases "fs path")
    case None
    with n show ?thesis by (auto simp: NewJSONStore_cases snapshot_records_def GetAll_eq)
  next
    case (Some data)
    show ?thesis
    proof (cases data)
      case NoBytes
      with n Some show ?thesis by (auto simp: NewJSONStore_cases snapshot_records_def GetAll_eq)
    next
      case (UsersJSON us)
      with d Some have "distinct (map ID us)" by simp
      from GetAll_range_store[OF this, of path] n Some UsersJSON show ?thesis
        by (auto simp: NewJSONStore_cases snapshot_records_def)
    next
      case OtherBytes
      with n Some show ?thesis by (auto simp: NewJSONStore_cases)
    qed
  qed
  show ?thesis
  proof (intro conjI impI)
    assume "Create out user s fs = (None, s', fs')"
    from W[OF Create_success[OF this]]
    show "snapshot_records fs' (filePath s') = json_User ` set (GetAll s')" by simp
  next
    assume "Create out user s fs = (None, s', fs')" "\<forall>u \<in> set (GetAll s'). json_User u = u"
    with W[OF Create_success] show "set (GetAll s') = snapshot_records fs' (filePath s')" by blast
  next
    assume "Update out user s fs = (None, s', fs')"
    from W[OF Update_success_file[OF this]]
    show "snapshot_records fs' (filePath s') = json_User ` set (GetAll s')" by simp
  next
    assume "Update out user s fs = (None, s', fs')" "\<forall>u \<in> set (GetAll s'). json_User u = u"
    with W[OF Update_success_file] show "set (GetAll s') = snapshot_records fs' (filePath s')" by blast
  next
    assume "Delete out uid s fs = (None, s', fs')"
    from W[OF Delete_success[OF this]]
    show "snapshot_records fs' (filePath s') = json_User ` set (GetAll s')" by simp
  next
    assume "Delete out uid s fs = (None, s', fs')" "\<forall>u \<in> set (GetAll s'). json_User u = u"
    with W[OF Delete_success] show "set (GetAll s') = snapshot_records fs' (filePath s')" by blast
  next
    assume d: "\<forall>us. fs path = Some (UsersJSON us) \<longrightarrow> distinct (map ID us)"
      and l: "load readable \<lparr>filePath = path, users = []\<rparr> fs = (None, s0)"
    from l have "NewJSONStore True readable fs path = Inr s0"
      by (simp add: NewJSONStore_def)
    from L[OF d NewJSONStore_Inr[OF this]] show "set (GetAll s0) = snapshot_records fs path" .
  next
    assume d: "\<forall>us. fs path = Some (UsersJSON us) \<longrightarrow> distinct (map ID us)"
      and n: "NewJSONStore mkdir_ok readable fs path = Inr s0"
    from L[OF d NewJSONStore_Inr[OF n]] show "set (GetAll s0) = snapshot_records fs path" .
  qed
qed

theorem index_equals_snapshot_witness:
  "Create Written bob store1 disk1 =
     (None, store2, [''data/users.json'' \<mapsto> UsersJSON [alice, bob]]) \<and>
   json_User alice = alice \<and> json_User bob = bob \<and>
   set (GetAll store2) = {alice, bob} \<and>
   snapshot_records [''data/users.json'' \<mapsto> UsersJSON [alice, bob]] (filePath store2) = {alice, bob} \<and>
   distinct (map ID [alice]) \<and>
   NewJSONStore True True disk1 ''data/users.json'' = Inr store1 \<and>
   set (GetAll store1) = {alice} \<and>
   snapshot_records disk1 ''data/users.json'' = {alice}"
  using index_equals_snapshot [where out = Written and user = bob and s = store1 and fs = disk1 and s' = store2
          and fs' = "[''data/users.json'' \<mapsto> UsersJSON [alice, bob]]" and uid = "''2''"
          and path = "''data/users.json''" and readable = True and mkdir_ok = True and ?s0.0 = store1]
  by (simp add: Create_def save_def os_WriteFile_def json_MarshalIndent_def json_User_def
      json_Time_def rune_len_def utc_def
      NewJSONStore_def load_def os_ReadFile_def json_Unmarshal_def os_IsNotExist_def
      GetAll_def snapshot_records_def store1_def store2_def disk1_def alice_def bob_def)

section \<open>Starting the store\<close>

text \<open>
  Claim C8. \<^verbatim>\<open>NewJSONStore\<close> makes one call of \<^verbatim>\<open>load\<close>, which reads the snapshot file
  once. With the directory in place: when the file does not exist, \<^verbatim>\<open>NewJSONStore\<close>
  returns a store with an empty index; when the file exists, can be read and has no
  bytes, it returns a store with an empty index as well. When the file holds bytes that
  do not decode as a sequence of records, \<^verbatim>\<open>NewJSONStore\<close> returns an error (an error of
  reading or parsing) and no store. \<^verbatim>\<open>GetAll\<close> on the store with the empty index returns
  the empty sequence; it has no error to return.
\<close>

theorem NewJSONStore_load_cases:
  "(fs path = None \<longrightarrow>
      NewJSONStore True readable fs path = Inr \<lparr>filePath = path, users = []\<rparr>) \<and>
   (fs path = Some NoBytes \<longrightarrow>
      NewJSONStore True True fs path = Inr \<lparr>filePath = path, users = []\<rparr>) \<and>
   (fs path = Some OtherBytes \<longrightarrow>
      (\<exists>e. NewJSONStore mkdir_ok readable fs path = Inl e \<and> PersistenceError e)) \<and>
   GetAll \<lparr>filePath = path, users = []\<rparr> = []"
proof (intro conjI impI)
  assume "fs path = None"
  then show "NewJSONStore True readable fs path = Inr \<lparr>filePath = path, users = []\<rparr>"
    by (simp add: NewJSONStore_def load_def os_ReadFile_def os_IsNotExist_def)
next
  assume "fs path = Some NoBytes"
  then show "NewJSONStore True True fs path = Inr \<lparr>filePath = path, users = []\<rparr>"
    by (simp add: NewJSONStore_cases)
next
  assume o: "fs path = Some OtherBytes"
  have "\<exists>e. NewJSONStore mkdir_ok readable fs path = Inl e"
    using o by (cases mkdir_ok; cases readable)
      (simp_all add: NewJSONStore_def load_def os_ReadFile_def json_Unmarshal_def os_IsNotExist_def)
  then obtain e where e: "NewJSONStore mkdir_ok readable fs path = Inl e" ..
  from NewJSONStore_Inl[OF e] e
  show "\<exists>e. NewJSONStore mkdir_ok readable fs path = Inl e \<and> PersistenceError e" by blast
next
  show "GetAll \<lparr>filePath = path, users = []\<rparr> = []" by (simp add: GetAll_def)
qed

theorem NewJSONStore_load_cases_witness:
  "disk0 ''data/users.json'' = None \<and>
   NewJSONStore True True disk0 ''data/users.json'' = Inr store0 \<and>
   [''data/users.json'' \<mapsto> NoBytes] ''data/users.json'' = Some NoBytes \<and>
   NewJSONStore True True [''data/users.json'' \<mapsto> NoBytes] ''data/users.json'' = Inr store0 \<and>
   [''data/users.json'' \<mapsto> OtherBytes] ''data/users.json'' = Some OtherBytes \<and>
   NewJSONStore True True [''data/users.json'' \<mapsto> OtherBytes] ''data/users.json'' = Inl ErrJSON \<and>
   PersistenceError ErrJSON \<and>
   GetAll store0 = []"
  using NewJSONStore_load_cases [where fs = disk0 and path = "''data/users.json''" and readable = True and mkdir_ok = True]
        NewJSONStore_load_cases [where fs = "[''data/users.json'' \<mapsto> NoBytes]" and path = "''data/users.json''" and readable = True and mkdir_ok = True]
        NewJSONStore_load_cases [where fs = "[''data/users.json'' \<mapsto> OtherBytes]" and path = "''data/users.json''" and readable = True and mkdir_ok = True]
  by (simp add: NewJSONStore_def load_def os_ReadFile_def json_Unmarshal_def os_IsNotExist_def
      PersistenceError_def GetAll_def store0_def disk0_def)

section \<open>Persistence round trip\<close>

text \<open>
  Claim C9 says that after every sequence of successful operations a fresh store built
  from the snapshot file lists the same set of records. The file holds the records as
  \<^verbatim>\<open>json.MarshalIndent\<close> writes them: here a store is built on no file, a \<^verbatim>\<open>Create\<close> of
  a record whose name is the byte 0xFF returns no error, and the store built from the
  file afterwards lists the record with the name U+FFFD, which the first store does not
  hold.
\<close>

theorem persistence_round_trip_counterexample:
  "NewJSONStore True True disk0 ''data/users.json'' = Inr store0 \<and>
   run [(Written, OpCreate carol)] store0 disk0 =
     (None, store0\<lparr>users := [(''3'', carol)]\<rparr>, [''data/users.json'' \<mapsto> UsersJSON [carol_written]]) \<and>
   GetAll (store0\<lparr>users := [(''3'', carol)]\<rparr>) = [carol] \<and>
   NewJSONStore True True [''data/users.json'' \<mapsto> UsersJSON [carol_written]] ''data/users.json''
     = Inr (store0\<lparr>users := [(''3'', carol_written)]\<rparr>) \<and>
   GetAll (store0\<lparr>users := [(''3'', carol_written)]\<rparr>) = [carol_written] \<and>
   set (GetAll (store0\<lparr>users := [(''3'', carol_written)]\<rparr>))
     \<noteq> set (GetAll (store0\<lparr>users := [(''3'', carol)]\<rparr>))"
  by (simp add: NewJSONStore_def load_def os_ReadFile_def json_Unmarshal_def os_IsNotExist_def
      Create_def save_def os_WriteFile_def json_MarshalIndent_def json_User_def json_Time_def
      rune_len_def utc_def GetAll_def store0_def disk0_def carol_def carol_written_def)

text \<open>
  Claim C9, as amended. Take a store that \<^verbatim>\<open>NewJSONStore\<close> returned and run on it a finite
  sequence of \<^verbatim>\<open>Create\<close>, \<^verbatim>\<open>Update\<close> and \<^verbatim>\<open>Delete\<close> calls that all return no error. If
  the sequence is empty, or every record it leaves in the index is written unchanged by
  \<^verbatim>\<open>json.MarshalIndent\<close> (its strings are well-formed UTF-8 and the zone offsets of its
  times are whole minutes), then \<^verbatim>\<open>NewJSONStore\<close> on the same path, with the file system
  as the sequence left it, returns a store, and \<^verbatim>\<open>GetAll\<close> on it returns the same set of
  records as \<^verbatim>\<open>GetAll\<close> on the first store after the sequence.
\<close>

theorem persistence_round_trip:
  "NewJSONStore mkdir_ok readable fs0 path = Inr s0 \<Longrightarrow>
   run ops s0 fs0 = (None, s, fs) \<Longrightarrow>
   ops = [] \<or> (\<forall>u \<in> set (GetAll s). json_User u = u) \<Longrightarrow>
   \<exists>t. NewJSONStore True True fs path = Inr t \<and> set (GetAll t) = set (GetAll s)"
proof -
  assume n: "NewJSONStore mkdir_ok readable fs0 path = Inr s0"
    and r: "run ops s0 fs0 = (None, s, fs)"
    and st: "ops = [] \<or> (\<forall>u \<in> set (GetAll s). json_User u = u)"
  from NewJSONStore_Inr[OF n] have n': "NewJSONStore True True fs0 path = Inr s0" .
  have fp0: "filePath s0 = path"
    using n' unfolding NewJSONStore_cases
    by (auto split: option.splits file_data.splits)
  show ?thesis
  proof (cases "ops = []")
    case True
    with r n' show ?thesis by simp
  next
    case False
    with st have fixed: "\<forall>u \<in> set (GetAll s). json_User u = u" by simp
    from run_last_write[OF NewJSONStore_store_ok[OF n] r False]
    have ok: "store_ok s" and w: "fs (filePath s) = Some (UsersJSON (map json_User (GetAll s)))"
      by simp_all
    from run_filePath[OF r] fp0 have fp: "filePath s = path" by simp
    from w fp json_User_fixed[OF fixed] have "fs path = Some (UsersJSON (GetAll s))" by simp
    then have "NewJSONStore True True fs path = Inr \<lparr>filePath = path, users = range_store (GetAll s) []\<rparr>"
      by (simp add: NewJSONStore_cases)
    moreover have "set (GetAll \<lparr>filePath = path, users = range_store (GetAll s) []\<rparr>) = set (GetAll s)"
      by (rule GetAll_range_store[OF store_ok_distinct_ids[OF ok]])
    ultimately show ?thesis by blast
  qed
qed

theorem persistence_round_trip_witness:
  "NewJSONStore True True disk1 ''data/users.json'' = Inr store1 \<and>
   run [(Written, OpCreate bob), (Written, OpUpdate (alice\<lparr>Name := ''Alicia''\<rparr>)),
        (Written, OpDelete ''2'')] store1 disk1 =
     (None, store1\<lparr>users := [(''1'', alice\<lparr>Name := ''Alicia''\<rparr>)]\<rparr>,
      [''data/users.json'' \<mapsto> UsersJSON [alice\<lparr>Name := ''Alicia''\<rparr>]]) \<and>
   json_User (alice\<lparr>Name := ''Alicia''\<rparr>) = alice\<lparr>Name := ''Alicia''\<rparr> \<and>
   NewJSONStore True True [''data/users.json'' \<mapsto> UsersJSON [alice\<lparr>Name := ''Alicia''\<rparr>]] ''data/users.json''
     = Inr (store1\<lparr>users := [(''1'', alice\<lparr>Name := ''Alicia''\<rparr>)]\<rparr>) \<and>
   GetAll (store1\<lparr>users := [(''1'', alice\<lparr>Name := ''Alicia''\<rparr>)]\<rparr>) = [alice\<lparr>Name := ''Alicia''\<rparr>]"
  using persistence_round_trip [of True True disk1 "''data/users.json''" store1
          "[(Written, OpCreate bob), (Written, OpUpdate (alice\<lparr>Name := ''Alicia''\<rparr>)),
            (Written, OpDelete ''2'')]"
          "store1\<lparr>users := [(''1'', alice\<lparr>Name := ''Alicia''\<rparr>)]\<rparr>"
          "[''data/users.json'' \<mapsto> UsersJSON [alice\<lparr>Name := ''Alicia''\<rparr>]]"]
  by (simp add: Create_def Update_def Delete_def save_def os_WriteFile_def json_MarshalIndent_def
      json_User_def json_Time_def rune_len_def utc_def
      NewJSONStore_def load_def os_ReadFile_def json_Unmarshal_def os_IsNotExist_def
      GetAll_def store1_def disk1_def alice_def bob_def)

end
